theory Spec2Isabelle
  imports Main "HOL-Library.Sublist" "HOL-Library.Word"
begin

section \<open>Errors\<close>

text \<open>
  A JavaScript exception is a value. \<open>Error m\<close> is \<^verbatim>\<open>new Error(m)\<close>, \<open>FsError c\<close> an
  error of the operating system with its code (\<^verbatim>\<open>ENOENT\<close>, \<^verbatim>\<open>EACCES\<close>, ...),
  \<open>TypeError m\<close> the error of calling or reading \<^verbatim>\<open>undefined\<close>. \<open>OutOfFuel\<close> is not a
  JavaScript error: it is the outcome of a walk that was cut off by the depth bound of
  the model.
\<close>

datatype error = Error string | FsError string | TypeError string | OutOfFuel

section \<open>Strings\<close>

text \<open>\<^verbatim>\<open>s.startsWith(pre)\<close>.\<close>

definition startsWith :: "string \<Rightarrow> string \<Rightarrow> bool" where
  "startsWith s pre = (take (length pre) s = pre)"

text \<open>\<^verbatim>\<open>s.split(sep)\<close> for a separator of one character: never the empty list.\<close>

fun splitOn :: "char \<Rightarrow> string \<Rightarrow> string list" where
  "splitOn sep [] = [[]]"
| "splitOn sep (c # cs) =
     (if c = sep then [] # splitOn sep cs
      else (case splitOn sep cs of
              x # xs \<Rightarrow> (c # x) # xs
            | [] \<Rightarrow> [[c]]))"

text \<open>\<^verbatim>\<open>xs.join(sep)\<close>.\<close>

fun joinWith :: "string \<Rightarrow> string list \<Rightarrow> string" where
  "joinWith sep [] = []"
| "joinWith sep [x] = x"
| "joinWith sep (x # y # ys) = x @ sep @ joinWith sep (y # ys)"

section \<open>The POSIX flavour of \<^verbatim>\<open>node:path\<close>\<close>

text \<open>
  The provider calls \<^verbatim>\<open>path.isAbsolute\<close>, \<^verbatim>\<open>path.resolve\<close>, \<^verbatim>\<open>path.relative\<close>,
  \<^verbatim>\<open>path.join\<close> and \<^verbatim>\<open>path.dirname\<close>. They belong to Node, not to this repository;
  they are modelled here after Node's \<^verbatim>\<open>lib/path.js\<close> (\<^verbatim>\<open>posix\<close>). Node's
  \<^verbatim>\<open>normalizeString\<close> scans characters; \<open>normSegs\<close> is the same computation read
  segment by segment: an empty segment and \<^verbatim>\<open>.\<close> are dropped, \<^verbatim>\<open>..\<close> removes the last
  segment kept so far unless there is none or it is \<^verbatim>\<open>..\<close> itself, in which case
  \<^verbatim>\<open>..\<close> is kept when the path is allowed to climb above its start and dropped
  otherwise.
\<close>

definition isAbsolute :: "string \<Rightarrow> bool" where
  "isAbsolute p = (case p of [] \<Rightarrow> False | c # _ \<Rightarrow> c = CHR ''/'')"

fun normSegs :: "bool \<Rightarrow> string list \<Rightarrow> string list \<Rightarrow> string list" where
  "normSegs allowAboveRoot res [] = res"
| "normSegs allowAboveRoot res (s # ss) =
     (if s = [] \<or> s = ''.'' then normSegs allowAboveRoot res ss
      else if s = ''..'' then
        (if res \<noteq> [] \<and> last res \<noteq> ''..'' then normSegs allowAboveRoot (butlast res) ss
         else if allowAboveRoot then normSegs allowAboveRoot (res @ [''..'']) ss
         else normSegs allowAboveRoot res ss)
      else normSegs allowAboveRoot (res @ [s]) ss)"

definition normalizeString :: "string \<Rightarrow> bool \<Rightarrow> string" where
  "normalizeString p allowAboveRoot =
     joinWith ''/'' (normSegs allowAboveRoot [] (splitOn (CHR ''/'') p))"

text \<open>
  \<^verbatim>\<open>path.resolve(...args)\<close>: the arguments are taken from the right until one is
  absolute; when none is, the working directory of the process comes last. The list
  given to \<open>resolveLoop\<close> is the arguments reversed, followed by the working directory.
\<close>

fun resolveLoop :: "string list \<Rightarrow> string \<Rightarrow> string \<times> bool" where
  "resolveLoop [] resolvedPath = (resolvedPath, False)"
| "resolveLoop (p # ps) resolvedPath =
     (if p = [] then resolveLoop ps resolvedPath
      else if isAbsolute p then (p @ ''/'' @ resolvedPath, True)
      else resolveLoop ps (p @ ''/'' @ resolvedPath))"

definition resolve :: "string \<Rightarrow> string list \<Rightarrow> string" where
  "resolve cwd args =
     (case resolveLoop (rev args @ [cwd]) [] of
        (resolvedPath, resolvedAbsolute) \<Rightarrow>
          (let n = normalizeString resolvedPath (\<not> resolvedAbsolute)
           in if resolvedAbsolute then ''/'' @ n
              else if n \<noteq> [] then n else ''.''))"

text \<open>\<^verbatim>\<open>path.normalize(p)\<close>: a trailing separator survives.\<close>

definition normalize :: "string \<Rightarrow> string" where
  "normalize p =
     (if p = [] then ''.''
      else
        (let isAbs = isAbsolute p;
             trailingSeparator = (last p = CHR ''/'');
             n = normalizeString p (\<not> isAbs)
         in if n = [] then (if isAbs then ''/'' else if trailingSeparator then ''./'' else ''.'')
            else (if isAbs then ''/'' else []) @ n @ (if trailingSeparator then ''/'' else [])))"

text \<open>\<^verbatim>\<open>path.join(...args)\<close>: the non-empty arguments, separated, then normalised.\<close>

definition join :: "string list \<Rightarrow> string" where
  "join args =
     (case filter (\<lambda>a. a \<noteq> []) args of
        [] \<Rightarrow> ''.''
      | as \<Rightarrow> normalize (joinWith ''/'' as))"

text \<open>
  \<^verbatim>\<open>path.relative(from, to)\<close>: both ends are resolved; the result climbs out of what
  \<open>from\<close> has beyond the common leading segments and descends into what \<open>to\<close> has
  beyond them.
\<close>

fun commonPrefixLen :: "string list \<Rightarrow> string list \<Rightarrow> nat" where
  "commonPrefixLen (x # xs) (y # ys) = (if x = y then Suc (commonPrefixLen xs ys) else 0)"
| "commonPrefixLen _ _ = 0"

definition pathSegs :: "string \<Rightarrow> string list" where
  "pathSegs p = filter (\<lambda>s. s \<noteq> []) (splitOn (CHR ''/'') p)"

definition relative :: "string \<Rightarrow> string \<Rightarrow> string \<Rightarrow> string" where
  "relative cwd from to =
     (if from = to then []
      else
        (let f = resolve cwd [from]; t = resolve cwd [to]
         in if f = t then []
            else
              (let fs = pathSegs f; ts = pathSegs t; n = commonPrefixLen fs ts
               in joinWith ''/'' (replicate (length fs - n) ''..'' @ drop n ts))))"

text \<open>
  \<^verbatim>\<open>path.dirname(p)\<close>: trailing separators are skipped, then the last segment; the
  character at index 0 is never inspected by the scan.
\<close>

definition dirname :: "string \<Rightarrow> string" where
  "dirname p =
     (if p = [] then ''.''
      else
        (let hasRoot = isAbsolute p;
             r1 = dropWhile (\<lambda>c. c = CHR ''/'') (rev (tl p));
             r2 = dropWhile (\<lambda>c. c \<noteq> CHR ''/'') r1;
             endIdx = length r2
         in if r2 = [] then (if hasRoot then ''/'' else ''.'')
            else if hasRoot \<and> endIdx = 1 then ''//''
            else take endIdx p))"

section \<open>Path resolution\<close>

text \<open>
  \<^verbatim>\<open>relativeOrAbsolutePathToAbsolutePath\<close> of \<^verbatim>\<open>LocalFileSystemProvider.ts\<close> (the copy
  in \<^verbatim>\<open>LocalFileSystemService.ts\<close> is the same). \<open>cwd\<close> is \<^verbatim>\<open>process.cwd()\<close>, which
  \<^verbatim>\<open>path.resolve\<close> and \<^verbatim>\<open>path.relative\<close> read; \<open>root\<close> is \<^verbatim>\<open>this.rootDirectory\<close>.
\<close>

definition relativeOrAbsolutePathToAbsolutePath :: "string \<Rightarrow> string \<Rightarrow> string \<Rightarrow> error + string" where
  "relativeOrAbsolutePathToAbsolutePath cwd root p =
     (if isAbsolute p then
        (let relativePath = relative cwd root p
         in if startsWith relativePath ''..'' \<or> isAbsolute relativePath
            then Inl (Error (''Path '' @ p @ '' is outside the root directory''))
            else Inr p)
      else Inr (resolve cwd [root, p]))"

definition relativeOrAbsolutePathToRelativePath :: "string \<Rightarrow> string \<Rightarrow> string \<Rightarrow> error + string" where
  "relativeOrAbsolutePathToRelativePath cwd root p =
     (case relativeOrAbsolutePathToAbsolutePath cwd root p of
        Inl e \<Rightarrow> Inl e
      | Inr a \<Rightarrow> Inr (relative cwd root a))"

text \<open>
  A path lies within the root when, both resolved, the segments of the root are a
  prefix of its segments.
\<close>

definition withinRoot :: "string \<Rightarrow> string \<Rightarrow> string \<Rightarrow> bool" where
  "withinRoot cwd root a = prefix (pathSegs (resolve cwd [root])) (pathSegs (resolve cwd [a]))"

section \<open>The file system and the process, as the provider sees them\<close>

text \<open>
  \<^verbatim>\<open>fs-extra\<close> is a library: its calls are parameters of the model, a record of
  functions over a state \<open>'w\<close> of the file system. A call that only reads returns its
  answer; a call that writes returns the next state. \<^verbatim>\<open>fs.pathExists\<close> never rejects
  (it answers \<^verbatim>\<open>false\<close> on every failure of \<^verbatim>\<open>fs.access\<close>), so it is a function into
  \<open>bool\<close>; the legacy copy's \<^verbatim>\<open>fs.existsSync\<close> is read through the same field.
\<close>

record stats =
  st_isFile :: bool
  st_isDirectory :: bool
  st_isSymbolicLink :: bool
  st_size :: nat
  st_birthtime :: int
  st_mtime :: int
  st_atime :: int

record dirent =
  d_name :: string
  d_isDirectory :: bool

record 'w fs_api =
  fs_pathExists :: "'w \<Rightarrow> string \<Rightarrow> bool"
  fs_stat :: "'w \<Rightarrow> string \<Rightarrow> error + stats"
  fs_readdir :: "'w \<Rightarrow> string \<Rightarrow> error + dirent list"
  fs_readFile :: "'w \<Rightarrow> string \<Rightarrow> error + string"
  fs_ensureDir :: "'w \<Rightarrow> string \<Rightarrow> error + 'w"
  fs_writeFile :: "'w \<Rightarrow> string \<Rightarrow> string \<Rightarrow> error + 'w"
  fs_appendFile :: "'w \<Rightarrow> string \<Rightarrow> string \<Rightarrow> error + 'w"
  fs_remove :: "'w \<Rightarrow> string \<Rightarrow> error + 'w"
  fs_rename :: "'w \<Rightarrow> string \<Rightarrow> string \<Rightarrow> error + 'w"
  fs_mkdir :: "'w \<Rightarrow> string \<Rightarrow> error + 'w"
  fs_copy :: "'w \<Rightarrow> string \<Rightarrow> string \<Rightarrow> bool \<Rightarrow> error + 'w"
  fs_chmod :: "'w \<Rightarrow> string \<Rightarrow> nat \<Rightarrow> error + 'w"

section \<open>The legacy resolver\<close>

text \<open>
  The JavaScript \<^verbatim>\<open>LocalFileSystemService\<close> resolves an absolute input by probing the
  file system first. Its \<^verbatim>\<open>p.replace(/\/[^\/]+\.[a-zA-Z0-9]+/)\<close> has no second
  argument, so the first match is replaced by the text \<^verbatim>\<open>undefined\<close>. A match starts at
  a separator; the greedy \<^verbatim>\<open>[^\/]+\<close> gives characters back until it stands before the
  last dot of the segment that an alphanumeric character follows.
\<close>

definition isAlnum :: "char \<Rightarrow> bool" where
  "isAlnum c = (c \<in> set (''abcdefghijklmnopqrstuvwxyz'' @ ''ABCDEFGHIJKLMNOPQRSTUVWXYZ'' @ ''0123456789''))"

definition matchAfterSlash :: "string \<Rightarrow> nat option" where
  "matchAfterSlash cs =
     (let run = takeWhile (\<lambda>c. c \<noteq> CHR ''/'') cs;
          ks = filter (\<lambda>k. run ! k = CHR ''.'' \<and> Suc k < length run \<and> isAlnum (run ! Suc k))
                 [1 ..< length run]
      in if ks = [] then None
         else Some (Suc (last ks) + length (takeWhile isAlnum (drop (Suc (last ks)) run))))"

fun replaceFileName :: "string \<Rightarrow> string" where
  "replaceFileName [] = []"
| "replaceFileName (c # cs) =
     (case (if c = CHR ''/'' then matchAfterSlash cs else None) of
        Some n \<Rightarrow> ''undefined'' @ drop n cs
      | None \<Rightarrow> c # replaceFileName cs)"

definition relativeOrAbsolutePathToAbsolutePath_legacy ::
  "'w fs_api \<Rightarrow> 'w \<Rightarrow> string \<Rightarrow> string \<Rightarrow> string \<Rightarrow> error + string" where
  "relativeOrAbsolutePathToAbsolutePath_legacy fs w cwd root p =
     (if \<not> isAbsolute p then Inr (resolve cwd [root, p])
      else if fs_pathExists fs w (resolve cwd [root, p]) then Inr (resolve cwd [root, p])
      else if fs_pathExists fs w (resolve cwd [root, replaceFileName p])
        then Inr (resolve cwd [root, p])
      else
        (let relativePath = relative cwd root p
         in if startsWith relativePath ''..'' \<or> isAbsolute relativePath
            then Inl (Error (''Path '' @ p @ '' is outside the root directory''))
            else Inr (resolve cwd [root, p])))"

section \<open>File operations\<close>

text \<open>
  Each operation resolves its path first; a raise of the resolver leaves the operation
  at once. The result of an operation that writes is its return value and the next
  state of the file system.
\<close>

definition writeFile ::
  "'w fs_api \<Rightarrow> 'w \<Rightarrow> string \<Rightarrow> string \<Rightarrow> string \<Rightarrow> string \<Rightarrow> error + bool \<times> 'w" where
  "writeFile fs w cwd root filePath content =
     (case relativeOrAbsolutePathToAbsolutePath cwd root filePath of
        Inl e \<Rightarrow> Inl e
      | Inr absolutePath \<Rightarrow>
          (case fs_ensureDir fs w (dirname absolutePath) of
             Inl e \<Rightarrow> Inl e
           | Inr w1 \<Rightarrow>
               (case fs_writeFile fs w1 absolutePath content of
                  Inl e \<Rightarrow> Inl e
                | Inr w2 \<Rightarrow> Inr (True, w2))))"

definition appendFile ::
  "'w fs_api \<Rightarrow> 'w \<Rightarrow> string \<Rightarrow> string \<Rightarrow> string \<Rightarrow> string \<Rightarrow> error + bool \<times> 'w" where
  "appendFile fs w cwd root filePath finalContent =
     (case relativeOrAbsolutePathToAbsolutePath cwd root filePath of
        Inl e \<Rightarrow> Inl e
      | Inr absolutePath \<Rightarrow>
          (case fs_ensureDir fs w (dirname absolutePath) of
             Inl e \<Rightarrow> Inl e
           | Inr w1 \<Rightarrow>
               (case fs_appendFile fs w1 absolutePath finalContent of
                  Inl e \<Rightarrow> Inl e
                | Inr w2 \<Rightarrow> Inr (True, w2))))"

definition deleteFile ::
  "'w fs_api \<Rightarrow> 'w \<Rightarrow> string \<Rightarrow> string \<Rightarrow> string \<Rightarrow> error + bool \<times> 'w" where
  "deleteFile fs w cwd root filePath =
     (case relativeOrAbsolutePathToAbsolutePath cwd root filePath of
        Inl e \<Rightarrow> Inl e
      | Inr absolutePath \<Rightarrow>
          if \<not> fs_pathExists fs w absolutePath
          then Inl (Error (''File '' @ filePath @ '' does not exist''))
          else
            (case fs_stat fs w absolutePath of
               Inl e \<Rightarrow> Inl e
             | Inr st \<Rightarrow>
                 if \<not> st_isFile st then Inl (Error (''Path '' @ filePath @ '' is not a file''))
                 else
                   (case fs_remove fs w absolutePath of
                      Inl e \<Rightarrow> Inl e
                    | Inr w1 \<Rightarrow> Inr (True, w1))))"

definition readFile ::
  "'w fs_api \<Rightarrow> 'w \<Rightarrow> string \<Rightarrow> string \<Rightarrow> string \<Rightarrow> error + string" where
  "readFile fs w cwd root filePath =
     (case relativeOrAbsolutePathToAbsolutePath cwd root filePath of
        Inl e \<Rightarrow> Inl e
      | Inr absolutePath \<Rightarrow>
          if \<not> fs_pathExists fs w absolutePath
          then Inl (Error (''File '' @ filePath @ '' does not exist''))
          else
            (case fs_stat fs w absolutePath of
               Inl e \<Rightarrow> Inl e
             | Inr st \<Rightarrow>
                 if \<not> st_isFile st then Inl (Error (''Path '' @ filePath @ '' is not a file''))
                 else fs_readFile fs w absolutePath))"

text \<open>
  \<^verbatim>\<open>getFile\<close> is inherited by the provider; \<^verbatim>\<open>LocalFileSystemService.ts\<close> has it as
  \<^verbatim>\<open>this.readFile(filePath, "utf8")\<close>.
\<close>

definition getFile ::
  "'w fs_api \<Rightarrow> 'w \<Rightarrow> string \<Rightarrow> string \<Rightarrow> string \<Rightarrow> error + string" where
  "getFile fs w cwd root filePath = readFile fs w cwd root filePath"

definition rename ::
  "'w fs_api \<Rightarrow> 'w \<Rightarrow> string \<Rightarrow> string \<Rightarrow> string \<Rightarrow> string \<Rightarrow> error + bool \<times> 'w" where
  "rename fs w cwd root oldPath newPath =
     (case relativeOrAbsolutePathToAbsolutePath cwd root oldPath of
        Inl e \<Rightarrow> Inl e
      | Inr absoluteOldPath \<Rightarrow>
          (case relativeOrAbsolutePathToAbsolutePath cwd root newPath of
             Inl e \<Rightarrow> Inl e
           | Inr absoluteNewPath \<Rightarrow>
               if \<not> fs_pathExists fs w absoluteOldPath
               then Inl (Error (''Path '' @ oldPath @ '' does not exist''))
               else if fs_pathExists fs w absoluteNewPath
               then Inl (Error (''Path '' @ newPath @ '' already exists''))
               else
                 (case fs_ensureDir fs w (dirname absoluteNewPath) of
                    Inl e \<Rightarrow> Inl e
                  | Inr w1 \<Rightarrow>
                      (case fs_rename fs w1 absoluteOldPath absoluteNewPath of
                         Inl e \<Rightarrow> Inl e
                       | Inr w2 \<Rightarrow> Inr (True, w2)))))"

text \<open>
  \<^verbatim>\<open>exists\<close>: the resolver runs inside \<^verbatim>\<open>try\<close>, and \<^verbatim>\<open>catch\<close> answers \<^verbatim>\<open>false\<close>.
\<close>

definition exists :: "'w fs_api \<Rightarrow> 'w \<Rightarrow> string \<Rightarrow> string \<Rightarrow> string \<Rightarrow> error + bool" where
  "exists fs w cwd root filePath =
     (case relativeOrAbsolutePathToAbsolutePath cwd root filePath of
        Inl e \<Rightarrow> Inr False
      | Inr absolutePath \<Rightarrow> Inr (fs_pathExists fs w absolutePath))"

record statLike =
  sl_path :: string
  sl_absolutePath :: string
  sl_isFile :: bool
  sl_isDirectory :: bool
  sl_isSymbolicLink :: bool
  sl_size :: nat
  sl_created :: int
  sl_modified :: int
  sl_accessed :: int

definition stat :: "'w fs_api \<Rightarrow> 'w \<Rightarrow> string \<Rightarrow> string \<Rightarrow> string \<Rightarrow> error + statLike" where
  "stat fs w cwd root filePath =
     (case relativeOrAbsolutePathToAbsolutePath cwd root filePath of
        Inl e \<Rightarrow> Inl e
      | Inr absolutePath \<Rightarrow>
          if \<not> fs_pathExists fs w absolutePath
          then Inl (Error (''Path '' @ filePath @ '' does not exist''))
          else
            (case fs_stat fs w absolutePath of
               Inl e \<Rightarrow> Inl e
             | Inr st \<Rightarrow>
                 Inr \<lparr> sl_path = filePath, sl_absolutePath = absolutePath,
                       sl_isFile = st_isFile st, sl_isDirectory = st_isDirectory st,
                       sl_isSymbolicLink = st_isSymbolicLink st, sl_size = st_size st,
                       sl_created = st_birthtime st, sl_modified = st_mtime st,
                       sl_accessed = st_atime st \<rparr>))"

definition createDirectory ::
  "'w fs_api \<Rightarrow> 'w \<Rightarrow> string \<Rightarrow> string \<Rightarrow> string \<Rightarrow> bool \<Rightarrow> error + bool \<times> 'w" where
  "createDirectory fs w cwd root dirPath recursive =
     (case relativeOrAbsolutePathToAbsolutePath cwd root dirPath of
        Inl e \<Rightarrow> Inl e
      | Inr absolutePath \<Rightarrow>
          if fs_pathExists fs w absolutePath then
            (case fs_stat fs w absolutePath of
               Inl e \<Rightarrow> Inl e
             | Inr st \<Rightarrow>
                 if st_isDirectory st then Inr (True, w)
                 else Inl (Error (''Path '' @ dirPath @ '' exists but is not a directory'')))
          else if recursive then
            (case fs_ensureDir fs w absolutePath of
               Inl e \<Rightarrow> Inl e
             | Inr w1 \<Rightarrow> Inr (True, w1))
          else
            (case fs_mkdir fs w absolutePath of
               Inl e \<Rightarrow>
                 if e = FsError ''ENOENT''
                 then Inl (Error (''Parent directory for '' @ dirPath @ '' does not exist''))
                 else Inl e
             | Inr w1 \<Rightarrow> Inr (True, w1)))"

definition copy ::
  "'w fs_api \<Rightarrow> 'w \<Rightarrow> string \<Rightarrow> string \<Rightarrow> string \<Rightarrow> string \<Rightarrow> bool \<Rightarrow> error + bool \<times> 'w" where
  "copy fs w cwd root source destination overwrite =
     (case relativeOrAbsolutePathToAbsolutePath cwd root source of
        Inl e \<Rightarrow> Inl e
      | Inr absoluteSource \<Rightarrow>
          (case relativeOrAbsolutePathToAbsolutePath cwd root destination of
             Inl e \<Rightarrow> Inl e
           | Inr absoluteDestination \<Rightarrow>
               if \<not> fs_pathExists fs w absoluteSource
               then Inl (Error (''Source path '' @ source @ '' does not exist''))
               else if \<not> overwrite \<and> fs_pathExists fs w absoluteDestination
               then Inl (Error (''Destination path '' @ destination @ '' already exists''))
               else
                 (case fs_copy fs w absoluteSource absoluteDestination overwrite of
                    Inl e \<Rightarrow> Inl e
                  | Inr w1 \<Rightarrow> Inr (True, w1))))"

text \<open>
  \<^verbatim>\<open>chmod\<close> wraps the error of the operating system; the text of that error is not
  modelled, so the wrapped message ends at the colon.
\<close>

definition chmod ::
  "'w fs_api \<Rightarrow> 'w \<Rightarrow> string \<Rightarrow> string \<Rightarrow> string \<Rightarrow> nat \<Rightarrow> error + bool \<times> 'w" where
  "chmod fs w cwd root filePath mode =
     (case relativeOrAbsolutePathToAbsolutePath cwd root filePath of
        Inl e \<Rightarrow> Inl e
      | Inr absolutePath \<Rightarrow>
          if \<not> fs_pathExists fs w absolutePath
          then Inl (Error (''Path '' @ filePath @ '' does not exist''))
          else
            (case fs_chmod fs w absolutePath mode of
               Inl e \<Rightarrow> Inl (Error (''Failed to change permissions for '' @ filePath @ '': ''))
             | Inr w1 \<Rightarrow> Inr (True, w1)))"

section \<open>Walking the directory tree\<close>

text \<open>
  The ignore predicate is a function of the host; it may raise, so it answers
  \<open>error + bool\<close>.

  \<^verbatim>\<open>getDirectoryTree\<close> is a generator: what it has yielded stays yielded when a later
  \<^verbatim>\<open>readdir\<close> or the predicate raises. The model returns the entries yielded, in order,
  and the error that ended the walk, if any. The first argument bounds the depth of the
  recursion (\<^verbatim>\<open>yield*\<close> into a subdirectory costs one); a walk cut off by the bound
  ends with \<open>OutOfFuel\<close>. \<open>walkItems\<close> is the \<^verbatim>\<open>for\<close> loop over the items read.
\<close>

type_synonym ignoreFilter = "string \<Rightarrow> error + bool"

fun getDirectoryTree ::
  "nat \<Rightarrow> 'w fs_api \<Rightarrow> 'w \<Rightarrow> string \<Rightarrow> string \<Rightarrow> ignoreFilter \<Rightarrow> string \<Rightarrow> bool
     \<Rightarrow> string list \<times> error option"
and walkItems ::
  "nat \<Rightarrow> 'w fs_api \<Rightarrow> 'w \<Rightarrow> string \<Rightarrow> string \<Rightarrow> ignoreFilter \<Rightarrow> string \<Rightarrow> bool
     \<Rightarrow> dirent list \<Rightarrow> string list \<times> error option"
where
  "getDirectoryTree 0 fs w cwd root ignoreFilter dir recursive = ([], Some OutOfFuel)"
| "getDirectoryTree (Suc n) fs w cwd root ignoreFilter dir recursive =
     (case fs_readdir fs w (resolve cwd [root, dir]) of
        Inl e \<Rightarrow> ([], Some e)
      | Inr items \<Rightarrow>
          walkItems n fs w cwd root ignoreFilter (resolve cwd [root, dir]) recursive items)"
| "walkItems n fs w cwd root ignoreFilter absoluteDir recursive [] = ([], None)"
| "walkItems n fs w cwd root ignoreFilter absoluteDir recursive (item # rest) =
     (let itemPath = join [absoluteDir, d_name item];
          relPath = relative cwd root itemPath
      in case ignoreFilter relPath of
           Inl e \<Rightarrow> ([], Some e)
         | Inr True \<Rightarrow> walkItems n fs w cwd root ignoreFilter absoluteDir recursive rest
         | Inr False \<Rightarrow>
             if d_isDirectory item then
               (if recursive then
                  (case getDirectoryTree n fs w cwd root ignoreFilter relPath True of
                     (ys, Some e) \<Rightarrow> ((relPath @ ''/'') # ys, Some e)
                   | (ys, None) \<Rightarrow>
                       (case walkItems n fs w cwd root ignoreFilter absoluteDir recursive rest of
                          (zs, r) \<Rightarrow> ((relPath @ ''/'') # ys @ zs, r)))
                else
                  (case walkItems n fs w cwd root ignoreFilter absoluteDir recursive rest of
                     (zs, r) \<Rightarrow> ((relPath @ ''/'') # zs, r)))
             else
               (case walkItems n fs w cwd root ignoreFilter absoluteDir recursive rest of
                  (zs, r) \<Rightarrow> (relPath # zs, r)))"

text \<open>
  The spec speaks of an entry's own path and of the paths of its ancestor directories
  below the walk root. \<open>descentFrom absoluteDir chain\<close> says that \<open>chain\<close> is such a line
  of descent: its first path is the root-relative path of an item of \<open>absoluteDir\<close>,
  each further path is the root-relative path of an item of the directory the path
  before it names, and every path but the last belongs to a directory item.
\<close>

fun descentFrom ::
  "'w fs_api \<Rightarrow> 'w \<Rightarrow> string \<Rightarrow> string \<Rightarrow> string \<Rightarrow> string list \<Rightarrow> bool" where
  "descentFrom fs w cwd root absoluteDir [] = True"
| "descentFrom fs w cwd root absoluteDir (r # rs) =
     (case fs_readdir fs w absoluteDir of
        Inl e \<Rightarrow> False
      | Inr items \<Rightarrow>
          list_ex (\<lambda>item. r = relative cwd root (join [absoluteDir, d_name item])
                          \<and> (rs = [] \<or> d_isDirectory item)) items
          \<and> descentFrom fs w cwd root (resolve cwd [root, r]) rs)"

definition descent ::
  "'w fs_api \<Rightarrow> 'w \<Rightarrow> string \<Rightarrow> string \<Rightarrow> string \<Rightarrow> string list \<Rightarrow> bool" where
  "descent fs w cwd root dir chain = descentFrom fs w cwd root (resolve cwd [root, dir]) chain"

text \<open>
  An entry the walk yields is accounted for below a directory when a line of descent
  from that directory ends in it (with the separator appended when it is a
  directory), and the predicate has answered \<open>False\<close> for every path of the line.
\<close>

definition accounted ::
  "'w fs_api \<Rightarrow> 'w \<Rightarrow> string \<Rightarrow> string \<Rightarrow> ignoreFilter \<Rightarrow> string \<Rightarrow> string \<Rightarrow> bool" where
  "accounted fs w cwd root ignoreFilter absoluteDir entry =
     (\<exists>chain. chain \<noteq> []
        \<and> descentFrom fs w cwd root absoluteDir chain
        \<and> (entry = last chain \<or> entry = last chain @ ''/'')
        \<and> list_all (\<lambda>r. ignoreFilter r = Inr False) chain)"

text \<open>
  A proper segment is a name as \<^verbatim>\<open>readdir\<close> gives it: not empty, neither \<^verbatim>\<open>.\<close> nor
  \<^verbatim>\<open>..\<close>, and without a separator.
\<close>

definition properSeg :: "string \<Rightarrow> bool" where
  "properSeg s = (s \<noteq> [] \<and> s \<noteq> ''.'' \<and> s \<noteq> ''..'' \<and> CHR ''/'' \<notin> set s)"

text \<open>A file system has proper names when every name that \<^verbatim>\<open>readdir\<close> gives is one.\<close>

definition properNames :: "'w fs_api \<Rightarrow> 'w \<Rightarrow> bool" where
  "properNames fs w =
     (\<forall>p items. fs_readdir fs w p = Inr items \<longrightarrow> list_all (\<lambda>item. properSeg (d_name item)) items)"

section \<open>Searching\<close>

record grepResult =
  gr_file :: string
  gr_line :: nat
  gr_match :: string
  gr_content :: "string option"

text \<open>\<^verbatim>\<open>line.includes(searchString)\<close>: the search string occurs as a contiguous part.\<close>

definition includesStr :: "string \<Rightarrow> string \<Rightarrow> bool" where
  "includesStr line searchString = sublist searchString line"

text \<open>
  \<^verbatim>\<open>xs.slice(start, end)\<close>: a negative index counts from the end of the array, and both
  indices are clamped to it.
\<close>

definition jsSlice :: "'a list \<Rightarrow> int \<Rightarrow> int \<Rightarrow> 'a list" where
  "jsSlice xs start end' =
     (let len = int (length xs);
          k = (if start < 0 then max (len + start) 0 else min start len);
          final = (if end' < 0 then max (len + end') 0 else min end' len)
      in take (nat (final - k)) (drop (nat k) xs))"

text \<open>
  The body of the loop over one file of \<^verbatim>\<open>grep\<close>, once its content is read: an empty
  content is skipped, the rest is split at line feeds and every line is tested.
\<close>

definition grepFile :: "string \<Rightarrow> int \<Rightarrow> int \<Rightarrow> string \<Rightarrow> string \<Rightarrow> grepResult list" where
  "grepFile searchString linesBefore linesAfter file content =
     (if content = [] then []
      else
        (let lines = splitOn (CHR 0x0A) content
         in concat (map (\<lambda>lineNum.
              (let line = lines ! lineNum
               in if includesStr line searchString then
                    (let startLine = max 0 (int lineNum - linesBefore);
                         endLine = min (int (length lines) - 1) (int lineNum + linesAfter);
                         contextContent =
                           (if linesBefore > 0 \<or> linesAfter > 0
                            then Some (joinWith [CHR 0x0A] (jsSlice lines startLine (endLine + 1)))
                            else None)
                     in [\<lparr> gr_file = file, gr_line = lineNum + 1, gr_match = line,
                           gr_content = contextContent \<rparr>])
                  else [])) [0 ..< length lines])))"

text \<open>\<^verbatim>\<open>allFiles.filter((file) => !ignoreFilter(file))\<close>, with a predicate that may raise.\<close>

fun filterNotIgnored :: "ignoreFilter \<Rightarrow> string list \<Rightarrow> error + string list" where
  "filterNotIgnored ignoreFilter [] = Inr []"
| "filterNotIgnored ignoreFilter (file # files) =
     (case ignoreFilter file of
        Inl e \<Rightarrow> Inl e
      | Inr b \<Rightarrow>
          (case filterNotIgnored ignoreFilter files of
             Inl e \<Rightarrow> Inl e
           | Inr kept \<Rightarrow> Inr (if \<not> b then file # kept else kept)))"

text \<open>
  The first half of \<^verbatim>\<open>grep\<close>: the walk from the root with the caller's predicate, every
  entry joined to the root, then the second filter. A caller that gives no predicate
  makes the walk call \<^verbatim>\<open>undefined\<close> at its first item.
\<close>

definition filesToSearch ::
  "nat \<Rightarrow> 'w fs_api \<Rightarrow> 'w \<Rightarrow> string \<Rightarrow> string \<Rightarrow> ignoreFilter option \<Rightarrow> error + string list" where
  "filesToSearch n fs w cwd root ignoreFilter =
     (case getDirectoryTree n fs w cwd root
             (case ignoreFilter of
                None \<Rightarrow> (\<lambda>p. Inl (TypeError ''ignoreFilter is not a function''))
              | Some ig \<Rightarrow> ig) [] True of
        (ys, Some e) \<Rightarrow> Inl e
      | (ys, None) \<Rightarrow>
          (let allFiles = map (\<lambda>file. join [root, file]) ys
           in case ignoreFilter of
                None \<Rightarrow> Inr allFiles
              | Some ig \<Rightarrow> filterNotIgnored ig allFiles))"

text \<open>One turn of the loop over the files: a file that cannot be read gives nothing.\<close>

definition searchFile ::
  "'w fs_api \<Rightarrow> 'w \<Rightarrow> string \<Rightarrow> string \<Rightarrow> string \<Rightarrow> int \<Rightarrow> int \<Rightarrow> string \<Rightarrow> grepResult list" where
  "searchFile fs w cwd root searchString linesBefore linesAfter file =
     (case getFile fs w cwd root (relative cwd root file) of
        Inl e \<Rightarrow> []
      | Inr content \<Rightarrow>
          grepFile searchString linesBefore linesAfter (relative cwd root file) content)"

definition grep ::
  "nat \<Rightarrow> 'w fs_api \<Rightarrow> 'w \<Rightarrow> string \<Rightarrow> string \<Rightarrow> string \<Rightarrow> ignoreFilter option \<Rightarrow> int \<Rightarrow> int
     \<Rightarrow> error + grepResult list" where
  "grep n fs w cwd root searchString ignoreFilter linesBefore linesAfter =
     (if searchString = [] then Inl (Error ''Search string is required'')
      else
        (case filesToSearch n fs w cwd root ignoreFilter of
           Inl e \<Rightarrow> Inl e
         | Inr files \<Rightarrow>
             Inr (concat (map (searchFile fs w cwd root searchString linesBefore linesAfter)
                            files))))"



text \<open>
  The directory tree below the root has finite depth when a number can be given to
  every directory such that the number of a directory read by the walk is greater than
  that of each directory among its items. The walk then needs no more levels than the
  number of the directory it starts from.
\<close>

definition finiteDepth ::
  "'w fs_api \<Rightarrow> 'w \<Rightarrow> string \<Rightarrow> string \<Rightarrow> (string \<Rightarrow> nat) \<Rightarrow> bool" where
  "finiteDepth fs w cwd root depth =
     (\<forall>absoluteDir items item.
        fs_readdir fs w absoluteDir = Inr items \<longrightarrow> item \<in> set items \<longrightarrow> d_isDirectory item \<longrightarrow>
        depth (resolve cwd [root, relative cwd root (join [absoluteDir, d_name item])])
          < depth absoluteDir)"

section \<open>Watching\<close>

text \<open>
  \<^verbatim>\<open>watch\<close> hands \<^verbatim>\<open>chokidar.watch\<close> its options; the watcher it returns is the library's
  and is modelled by those options. \<open>watchIgnored\<close> is the function given as
  \<^verbatim>\<open>ignored\<close>.
\<close>

definition watchIgnored :: "ignoreFilter \<Rightarrow> string \<Rightarrow> error + bool" where
  "watchIgnored ignoreFilter file =
     (if file = ''.'' \<or> file = ''./'' then Inr False
      else
        (case ignoreFilter (if startsWith file ''./'' then drop 2 file else file) of
           Inl e \<Rightarrow> Inr True
         | Inr b \<Rightarrow> Inr b))"

record watcher =
  wt_paths :: string
  wt_ignored :: "string \<Rightarrow> error + bool"
  wt_cwd :: string
  wt_stabilityThreshold :: int
  wt_pollInterval :: int

definition watch ::
  "'w fs_api \<Rightarrow> 'w \<Rightarrow> string \<Rightarrow> string \<Rightarrow> string \<Rightarrow> ignoreFilter \<Rightarrow> int option \<Rightarrow> int option
     \<Rightarrow> error + watcher" where
  "watch fs w cwd root dir ignoreFilter pollInterval stabilityThreshold =
     (if \<not> fs_pathExists fs w (resolve cwd [root, dir])
      then Inl (Error (''Directory '' @ dir @ '' does not exist''))
      else Inr \<lparr> wt_paths = ''./'',
                 wt_ignored = watchIgnored ignoreFilter,
                 wt_cwd = relative cwd cwd root,
                 wt_stabilityThreshold = (case stabilityThreshold of None \<Rightarrow> 2000 | Some t \<Rightarrow> t),
                 wt_pollInterval = (case pollInterval of None \<Rightarrow> 1000 | Some t \<Rightarrow> t) \<rparr>)"

text \<open>
  The JavaScript \<^verbatim>\<open>LocalFileSystemService\<close> gives \<^verbatim>\<open>chokidar\<close> the same function
  without the \<^verbatim>\<open>try\<close>: it ends with \<^verbatim>\<open>return ig(file)\<close>.
\<close>

definition watchIgnored_legacy :: "ignoreFilter \<Rightarrow> string \<Rightarrow> error + bool" where
  "watchIgnored_legacy ig file =
     (if file = ''.'' \<or> file = ''./'' then Inr False
      else ig (if startsWith file ''./'' then drop 2 file else file))"

section \<open>Running commands\<close>

text \<open>
  The outputs of a command are strings of JavaScript: sequences of UTF-16 code units.
  They are the only strings whose characters the provider inspects beyond ASCII, so
  they alone are modelled so; a text that is only copied or tested for emptiness stays
  a byte string. \<open>js\<close> writes an ASCII text as code units.
\<close>

type_synonym codeUnit = "16 word"

type_synonym jsString = "codeUnit list"

definition js :: "string \<Rightarrow> jsString" where
  "js s = map (\<lambda>c. of_nat (of_char c)) s"

text \<open>
  \<^verbatim>\<open>s.trim()\<close> removes, at both ends, the code units of ECMAScript's \<^verbatim>\<open>WhiteSpace\<close> and
  \<^verbatim>\<open>LineTerminator\<close>: tab, line feed, vertical tab, form feed, carriage return, space,
  no-break space, the space separators of Unicode (U+1680, U+2000 to U+200A, U+202F,
  U+205F, U+3000), line separator, paragraph separator and the byte order mark.
\<close>

definition isWhitespace :: "codeUnit \<Rightarrow> bool" where
  "isWhitespace c =
     (c \<in> set [0x0009, 0x000A, 0x000B, 0x000C, 0x000D, 0x0020, 0x00A0, 0x1680,
               0x2000, 0x2001, 0x2002, 0x2003, 0x2004, 0x2005, 0x2006, 0x2007,
               0x2008, 0x2009, 0x200A, 0x2028, 0x2029, 0x202F, 0x205F, 0x3000, 0xFEFF])"

definition trim :: "jsString \<Rightarrow> jsString" where
  "trim s = rev (dropWhile isWhitespace (rev (dropWhile isWhitespace s)))"

text \<open>
  What it is to be the trimmed form of a string, said without the function: \<open>t\<close> is
  \<open>s\<close> without a run of white space before it and a run of white space after it, and
  \<open>t\<close> itself neither starts nor ends with white space.
\<close>

definition trimOf :: "jsString \<Rightarrow> jsString \<Rightarrow> bool" where
  "trimOf s t =
     ((\<exists>pre post. s = pre @ t @ post \<and> list_all isWhitespace pre \<and> list_all isWhitespace post)
      \<and> (t = [] \<or> (\<not> isWhitespace (hd t) \<and> \<not> isWhitespace (last t))))"

text \<open>
  The command is a string, an array of strings, or absent. \<^verbatim>\<open>!command\<close> holds of the
  absent command and of the empty string; an empty array is truthy.
\<close>

datatype command = CmdString string | CmdArray "string list" | CmdAbsent

fun isFalsyCommand :: "command \<Rightarrow> bool" where
  "isFalsyCommand CmdAbsent = True"
| "isFalsyCommand (CmdString s) = (s = [])"
| "isFalsyCommand (CmdArray xs) = False"

record executeCommandOptions =
  timeoutSeconds :: "int option"
  env :: "(string \<rightharpoonup> string) option"
  workingDirectory :: "string option"

record execOpts =
  eo_cwd :: string
  eo_env :: "string \<rightharpoonup> string"
  eo_timeout :: int
  eo_maxBuffer :: int
  eo_shell :: bool

text \<open>
  \<^verbatim>\<open>execa\<close> is a library and a parameter of the model. It resolves with a result or
  rejects with an error object; \<open>thrown\<close> is what \<^verbatim>\<open>catch\<close> reads of the value it
  caught: an exit code when the property is a number, the two outputs and the two
  messages when they are strings.
\<close>

record execaResult =
  r_stdout :: "jsString option"
  r_stderr :: "jsString option"
  r_exitCode :: int

record thrown =
  t_exitCode :: "int option"
  t_stdout :: "jsString option"
  t_stderr :: "jsString option"
  t_shortMessage :: "string option"
  t_message :: "string option"

type_synonym execa = "string \<Rightarrow> string list option \<Rightarrow> execOpts \<Rightarrow> thrown + execaResult"

definition newError :: "string \<Rightarrow> thrown" where
  "newError m = \<lparr> t_exitCode = None, t_stdout = None, t_stderr = None,
                  t_shortMessage = None, t_message = Some m \<rparr>"

record executeCommandResult =
  ok :: bool
  exitCode :: int
  stdout :: jsString
  stderr :: jsString
  error :: "string option"

text \<open>\<^verbatim>\<open>Math.max(5, Math.min(timeoutSeconds || 60, 600))\<close>, after the default of 60.\<close>

definition effectiveTimeout :: "int option \<Rightarrow> int" where
  "effectiveTimeout ts =
     (let timeoutSeconds = (case ts of None \<Rightarrow> 60 | Some t \<Rightarrow> t)
      in max 5 (min (if timeoutSeconds = 0 then 60 else timeoutSeconds) 600))"

text \<open>The body of \<^verbatim>\<open>try\<close> up to the result of \<^verbatim>\<open>execa\<close>. Its last equation is never
  reached: an absent command has left \<^verbatim>\<open>executeCommand\<close> before.\<close>

fun runCommand :: "execa \<Rightarrow> command \<Rightarrow> execOpts \<Rightarrow> thrown + execaResult" where
  "runCommand execa (CmdArray []) execOpts = Inl (newError ''Command array cannot be empty'')"
| "runCommand execa (CmdArray (cmd # args)) execOpts = execa cmd (Some args) execOpts"
| "runCommand execa (CmdString s) execOpts = execa s None (execOpts\<lparr> eo_shell := True \<rparr>)"
| "runCommand execa CmdAbsent execOpts = execa [] None (execOpts\<lparr> eo_shell := True \<rparr>)"

text \<open>\<^verbatim>\<open>x?.trim?.() ?? ""\<close> and \<^verbatim>\<open>a || b || "Unknown error"\<close>.\<close>

definition trimOrEmpty :: "jsString option \<Rightarrow> jsString" where
  "trimOrEmpty x = (case x of None \<Rightarrow> [] | Some s \<Rightarrow> trim s)"

definition truthy :: "string option \<Rightarrow> bool" where
  "truthy x = (case x of None \<Rightarrow> False | Some s \<Rightarrow> s \<noteq> [])"

text \<open>
  The options given to \<^verbatim>\<open>execa\<close>: the resolved working directory, the environment of
  the process overridden by the caller's, the timeout in milliseconds, the buffer
  limit. \<^verbatim>\<open>shell\<close> is set later, for a command given as a string.
\<close>

definition buildExecOpts ::
  "(string \<rightharpoonup> string) \<Rightarrow> string \<Rightarrow> executeCommandOptions \<Rightarrow> execOpts" where
  "buildExecOpts processEnv dir options =
     (let timeout = effectiveTimeout (timeoutSeconds options)
      in \<lparr> eo_cwd = dir,
           eo_env = processEnv ++ (case env options of None \<Rightarrow> Map.empty | Some m \<Rightarrow> m),
           eo_timeout = timeout * 1000,
           eo_maxBuffer = 1024 * 1024,
           eo_shell = False \<rparr>)"

definition executeCommand ::
  "execa \<Rightarrow> (string \<rightharpoonup> string) \<Rightarrow> string \<Rightarrow> string \<Rightarrow> command \<Rightarrow> executeCommandOptions
     \<Rightarrow> error + executeCommandResult" where
  "executeCommand execa processEnv cwd root command options =
     (if isFalsyCommand command then Inl (Error ''Command is required'')
      else
        (case relativeOrAbsolutePathToAbsolutePath cwd root
                (case workingDirectory options of None \<Rightarrow> ''./'' | Some d \<Rightarrow> d) of
           Inl e \<Rightarrow> Inl e
         | Inr dir \<Rightarrow>
             (case runCommand execa command (buildExecOpts processEnv dir options) of
                   Inr result \<Rightarrow>
                     Inr \<lparr> ok = True, exitCode = r_exitCode result,
                           stdout = trimOrEmpty (r_stdout result),
                           stderr = trimOrEmpty (r_stderr result),
                           error = None \<rparr>
                 | Inl err \<Rightarrow>
                     Inr \<lparr> ok = False,
                           exitCode = (case t_exitCode err of Some c \<Rightarrow> c | None \<Rightarrow> 1),
                           stdout = trimOrEmpty (t_stdout err),
                           stderr = trimOrEmpty (t_stderr err),
                           error =
                             (if truthy (t_shortMessage err) then t_shortMessage err
                              else if truthy (t_message err) then t_message err
                              else Some ''Unknown error'') \<rparr>)))"

text \<open>
  The two older copies of \<^verbatim>\<open>executeCommand\<close> differ in the message of a failure only:
  \<^verbatim>\<open>err.shortMessage || err.message\<close>, with no last resort.
\<close>

definition executeCommand_legacy ::
  "execa \<Rightarrow> (string \<rightharpoonup> string) \<Rightarrow> string \<Rightarrow> string \<Rightarrow> command \<Rightarrow> executeCommandOptions
     \<Rightarrow> error + executeCommandResult" where
  "executeCommand_legacy execa processEnv cwd root command options =
     (if isFalsyCommand command then Inl (Error ''Command is required'')
      else
        (case relativeOrAbsolutePathToAbsolutePath cwd root
                (case workingDirectory options of None \<Rightarrow> ''./'' | Some d \<Rightarrow> d) of
           Inl e \<Rightarrow> Inl e
         | Inr dir \<Rightarrow>
             (case runCommand execa command (buildExecOpts processEnv dir options) of
                   Inr result \<Rightarrow>
                     Inr \<lparr> ok = True, exitCode = r_exitCode result,
                           stdout = trimOrEmpty (r_stdout result),
                           stderr = trimOrEmpty (r_stderr result),
                           error = None \<rparr>
                 | Inl err \<Rightarrow>
                     Inr \<lparr> ok = False,
                           exitCode = (case t_exitCode err of Some c \<Rightarrow> c | None \<Rightarrow> 1),
                           stdout = trimOrEmpty (t_stdout err),
                           stderr = trimOrEmpty (t_stderr err),
                           error =
                             (if truthy (t_shortMessage err) then t_shortMessage err
                              else t_message err) \<rparr>)))"

section \<open>A small file system to run the operations on\<close>

text \<open>
  A read-only file system in memory: a list of absolute paths with what is there. It
  instantiates the calls of the library where an operation is run on a concrete input.
\<close>

datatype node = FileNode string | DirNode

type_synonym memfs = "(string \<times> node) list"

definition memStats :: "node \<Rightarrow> stats" where
  "memStats nd =
     \<lparr> st_isFile = (case nd of FileNode c \<Rightarrow> True | DirNode \<Rightarrow> False),
       st_isDirectory = (case nd of FileNode c \<Rightarrow> False | DirNode \<Rightarrow> True),
       st_isSymbolicLink = False,
       st_size = (case nd of FileNode c \<Rightarrow> length c | DirNode \<Rightarrow> 0),
       st_birthtime = 0, st_mtime = 0, st_atime = 0 \<rparr>"

definition memReaddir :: "memfs \<Rightarrow> string \<Rightarrow> error + dirent list" where
  "memReaddir w p =
     (case map_of w p of
        None \<Rightarrow> Inl (FsError ''ENOENT'')
      | Some (FileNode c) \<Rightarrow> Inl (FsError ''ENOTDIR'')
      | Some DirNode \<Rightarrow>
          Inr (map (\<lambda>(q, nd). \<lparr> d_name = last (splitOn (CHR ''/'') q),
                                 d_isDirectory = (nd = DirNode) \<rparr>)
                 (filter (\<lambda>(q, nd). q \<noteq> p \<and> dirname q = p) w)))"

definition memFs :: "memfs fs_api" where
  "memFs =
     \<lparr> fs_pathExists = (\<lambda>w p. map_of w p \<noteq> None),
       fs_stat = (\<lambda>w p. case map_of w p of None \<Rightarrow> Inl (FsError ''ENOENT'')
                                         | Some nd \<Rightarrow> Inr (memStats nd)),
       fs_readdir = memReaddir,
       fs_readFile = (\<lambda>w p. case map_of w p of Some (FileNode c) \<Rightarrow> Inr c
                                             | Some DirNode \<Rightarrow> Inl (FsError ''EISDIR'')
                                             | None \<Rightarrow> Inl (FsError ''ENOENT'')),
       fs_ensureDir = (\<lambda>w p. Inl (FsError ''EROFS'')),
       fs_writeFile = (\<lambda>w p c. Inl (FsError ''EROFS'')),
       fs_appendFile = (\<lambda>w p c. Inl (FsError ''EROFS'')),
       fs_remove = (\<lambda>w p. Inl (FsError ''EROFS'')),
       fs_rename = (\<lambda>w p q. Inl (FsError ''EROFS'')),
       fs_mkdir = (\<lambda>w p. Inl (FsError ''EROFS'')),
       fs_copy = (\<lambda>w p q b. Inl (FsError ''EROFS'')),
       fs_chmod = (\<lambda>w p m. Inl (FsError ''EROFS'')) \<rparr>"

text \<open>
  \<^verbatim>\<open>/srv/root\<close> holds \<^verbatim>\<open>a.txt\<close>, a directory \<^verbatim>\<open>src\<close> with \<^verbatim>\<open>main.ts\<close>, and a directory
  \<^verbatim>\<open>node_modules\<close> with \<^verbatim>\<open>dep.js\<close>; \<^verbatim>\<open>/etc/passwd\<close> lies outside.
\<close>

definition sampleFs :: memfs where
  "sampleFs =
     [(''/srv'', DirNode),
      (''/srv/root'', DirNode),
      (''/srv/root/a.txt'', FileNode (''alpha'' @ [CHR 0x0A] @ ''needle one'' @ [CHR 0x0A] @ ''omega'')),
      (''/srv/root/src'', DirNode),
      (''/srv/root/src/main.ts'', FileNode (''no match'' @ [CHR 0x0A] @ ''a needle'')),
      (''/srv/root/node_modules'', DirNode),
      (''/srv/root/node_modules/dep.js'', FileNode ''needle''),
      (''/etc'', DirNode),
      (''/etc/passwd'', FileNode ''root'')]"

definition ignoreNodeModules :: ignoreFilter where
  "ignoreNodeModules p = Inr (pathSegs p \<noteq> [] \<and> hd (pathSegs p) = ''node_modules'')"

text \<open>
  An \<^verbatim>\<open>execa\<close> that fails for \<^verbatim>\<open>false\<close>, with a line on the error output, and otherwise
  prints the command between a no-break space and a line feed.
\<close>

definition echoExeca :: execa where
  "echoExeca cmd args execOpts =
     (if cmd = ''false''
      then Inl \<lparr> t_exitCode = Some 1, t_stdout = Some [],
                 t_stderr = Some (js ''no'' @ [0x000A]),
                 t_shortMessage = Some ''Command failed with exit code 1: false'',
                 t_message = Some ''Command failed with exit code 1: false'' \<rparr>
      else Inr \<lparr> r_stdout = Some ([0x00A0] @ js cmd @ [0x000A]), r_stderr = Some [],
                 r_exitCode = 0 \<rparr>)"

definition noOptions :: executeCommandOptions where
  "noOptions = \<lparr> timeoutSeconds = None, env = None, workingDirectory = None \<rparr>"

text \<open>A predicate that raises on \<^verbatim>\<open>a\<close>, ignores \<^verbatim>\<open>b\<close> and nothing else.\<close>

definition raisingFilter :: ignoreFilter where
  "raisingFilter p = (if p = ''a'' then Inl (Error ''boom'') else Inr (p = ''b''))"

text \<open>
  A predicate that ignores \<^verbatim>\<open>node_modules\<close> by its root-relative path and \<^verbatim>\<open>a.txt\<close> by
  its absolute path only.
\<close>

definition ignoreAbsoluteA :: ignoreFilter where
  "ignoreAbsoluteA p =
     Inr (p = ''/srv/root/a.txt'' \<or> (pathSegs p \<noteq> [] \<and> hd (pathSegs p) = ''node_modules''))"


section \<open>Containment of resolved paths\<close>

lemma joinWith_dotdot_starts:
  "startsWith (joinWith ''/'' (''..'' # xs)) ''..''"
  by (cases xs) (simp_all add: startsWith_def)

lemma commonPrefixLen_le: "commonPrefixLen xs ys \<le> length xs"
  by (induction xs ys rule: commonPrefixLen.induct) simp_all

lemma commonPrefixLen_full:
  "commonPrefixLen xs ys = length xs \<Longrightarrow> prefix xs ys"
  by (induction xs ys rule: commonPrefixLen.induct) (auto split: if_splits)

lemma relative_not_climbing:
  assumes "\<not> startsWith (relative cwd root p) ''..''"
  shows "withinRoot cwd root p"
proof (cases "root = p \<or> resolve cwd [root] = resolve cwd [p]")
  case True
  then show ?thesis by (auto simp: withinRoot_def)
next
  case False
  define fs where "fs = pathSegs (resolve cwd [root])"
  define ts where "ts = pathSegs (resolve cwd [p])"
  define n where "n = commonPrefixLen fs ts"
  from False have rel: "relative cwd root p = joinWith ''/'' (replicate (length fs - n) ''..'' @ drop n ts)"
    by (simp add: relative_def Let_def fs_def ts_def n_def)
  have "length fs - n = 0"
  proof (rule ccontr)
    assume "length fs - n \<noteq> 0"
    then obtain k where "length fs - n = Suc k" by (cases "length fs - n") auto
    then have "relative cwd root p = joinWith ''/'' (''..'' # (replicate k ''..'' @ drop n ts))"
      using rel by simp
    then show False using assms joinWith_dotdot_starts by metis
  qed
  moreover have "n \<le> length fs" unfolding n_def by (rule commonPrefixLen_le)
  ultimately have "n = length fs" by simp
  then have "prefix fs ts" unfolding n_def by (rule commonPrefixLen_full)
  then show ?thesis by (simp add: withinRoot_def fs_def ts_def)
qed

text \<open>
  An absolute input is returned only when it lies within the root, and raises
  otherwise: this is the branch of the resolver that checks.
\<close>

lemma resolver_absolute_contained:
  assumes "isAbsolute p" "relativeOrAbsolutePathToAbsolutePath cwd root p = Inr a"
  shows "a = p \<and> withinRoot cwd root a"
  using assms relative_not_climbing[of cwd root p]
  by (auto simp: relativeOrAbsolutePathToAbsolutePath_def Let_def split: if_splits)

lemma resolver_absolute_outside_raises:
  assumes "isAbsolute p" "\<not> withinRoot cwd root p"
  shows "relativeOrAbsolutePathToAbsolutePath cwd root p = Inl (Error (''Path '' @ p @ '' is outside the root directory''))"
  using assms relative_not_climbing[of cwd root p]
  by (auto simp: relativeOrAbsolutePathToAbsolutePath_def Let_def)

text \<open>The other branch checks nothing: a relative input never raises.\<close>

lemma resolver_relative_never_raises:
  "\<not> isAbsolute p \<Longrightarrow> relativeOrAbsolutePathToAbsolutePath cwd root p = Inr (resolve cwd [root, p])"
  by (simp add: relativeOrAbsolutePathToAbsolutePath_def)

text \<open>
  Claim C1 says that the path returned for any input, relative or absolute, lies within
  the root, and that no relative input with parent segments can leave it. The code
  does not do so: with the root \<^verbatim>\<open>/srv/root\<close>, the relative input \<^verbatim>\<open>../x\<close> is resolved
  to \<^verbatim>\<open>/srv/x\<close>, which is returned although it is outside the root.
\<close>

theorem resolver_relative_escapes_root:
  "\<not> isAbsolute ''../x''
   \<and> relativeOrAbsolutePathToAbsolutePath ''/'' ''/srv/root'' ''../x'' = Inr ''/srv/x''
   \<and> \<not> withinRoot ''/'' ''/srv/root'' ''/srv/x''"
  by code_simp

section \<open>Purity of path resolution\<close>

lemma resolveLoop_absolute_root:
  "isAbsolute root \<Longrightarrow> resolveLoop (p # root # rest) acc = resolveLoop (p # root # rest') acc"
  by (cases "root = []") (simp_all add: isAbsolute_def)

lemma resolveLoop_absolute:
  "isAbsolute p \<Longrightarrow> resolveLoop (p # rest) acc = resolveLoop (p # rest') acc"
  by (cases "p = []") (simp_all add: isAbsolute_def)

lemma resolve_two_absolute_root:
  "isAbsolute root \<Longrightarrow> resolve cwd [root, p] = resolve cwd' [root, p]"
  using resolveLoop_absolute_root[of root p "[cwd]" "[]" "[cwd']"]
  by (simp add: resolve_def)

lemma resolve_one_absolute:
  "isAbsolute p \<Longrightarrow> resolve cwd [p] = resolve cwd' [p]"
  using resolveLoop_absolute[of p "[cwd]" "[]" "[cwd']"]
  by (simp add: resolve_def)

lemma relative_absolute:
  "isAbsolute a \<Longrightarrow> isAbsolute b \<Longrightarrow> relative cwd a b = relative cwd' a b"
  using resolve_one_absolute[of a cwd cwd'] resolve_one_absolute[of b cwd cwd']
  by (simp add: relative_def)

text \<open>
  Claim C2, as amended: the resolver of the provider takes no state of the file system
  at all, and with an absolute root directory its result does not depend on the
  working directory of the process either: it is a function of the root and the input
  alone.
\<close>

theorem resolver_pure:
  assumes "isAbsolute root"
  shows "relativeOrAbsolutePathToAbsolutePath cwd root p
           = relativeOrAbsolutePathToAbsolutePath cwd' root p"
  using assms resolve_two_absolute_root[of root cwd p cwd'] relative_absolute[of root p cwd cwd']
  by (simp add: relativeOrAbsolutePathToAbsolutePath_def)

theorem resolver_pure_witness:
  "isAbsolute ''/srv/root''
   \<and> relativeOrAbsolutePathToAbsolutePath ''/home/ann'' ''/srv/root'' ''docs/../a.txt''
       = relativeOrAbsolutePathToAbsolutePath ''/tmp'' ''/srv/root'' ''docs/../a.txt''
   \<and> relativeOrAbsolutePathToAbsolutePath ''/tmp'' ''/srv/root'' ''docs/../a.txt'' = Inr ''/srv/root/a.txt''"
  using resolver_pure[of "''/srv/root''" "''/home/ann''" "''docs/../a.txt''" "''/tmp''"]
  by code_simp

text \<open>
  The legacy resolver is not such a function: for the same root and the same input it
  returns the path when the file system has it and raises when it has not.
\<close>

theorem legacy_resolver_reads_file_system:
  "relativeOrAbsolutePathToAbsolutePath_legacy memFs sampleFs ''/'' ''/srv/root'' ''/etc/passwd''
     = Inr ''/etc/passwd''
   \<and> relativeOrAbsolutePathToAbsolutePath_legacy memFs [] ''/'' ''/srv/root'' ''/etc/passwd''
     = Inl (Error ''Path /etc/passwd is outside the root directory'')"
  by code_simp

section \<open>The timeout of a command\<close>

text \<open>
  A timeout of 0 seconds is falsy, so it is replaced by the default of 60 before the
  clamp; the clamp of 0 into the range would be 5.
\<close>

theorem effectiveTimeout_zero_is_default:
  "effectiveTimeout (Some 0) = 60 \<and> max 5 (min 0 600) = (5::int)"
  by (simp add: effectiveTimeout_def)

text \<open>
  Claim C3, as amended: the effective timeout is the clamp of the caller's value into
  the range from 5 to 600, except that an absent value and the value 0 give 60; it
  always lies in the range; 10000 gives 600 and a negative value gives 5.
\<close>

theorem effectiveTimeout_clamped:
  "effectiveTimeout ts =
     (case ts of None \<Rightarrow> 60 | Some t \<Rightarrow> if t = 0 then 60 else max 5 (min t 600))
   \<and> 5 \<le> effectiveTimeout ts \<and> effectiveTimeout ts \<le> 600
   \<and> effectiveTimeout (Some 10000) = 600
   \<and> effectiveTimeout (Some (- 3)) = 5"
  by (simp add: effectiveTimeout_def split: option.splits)

text \<open>It is this value, in milliseconds, that \<^verbatim>\<open>execa\<close> receives.\<close>

lemma buildExecOpts_timeout:
  "eo_timeout (buildExecOpts processEnv dir options) = effectiveTimeout (timeoutSeconds options) * 1000"
  by (simp add: buildExecOpts_def Let_def)

section \<open>When running a command raises\<close>


text \<open>
  The empty array is thrown inside \<^verbatim>\<open>try\<close>, so \<^verbatim>\<open>catch\<close> turns it into a result.
\<close>

lemma executeCommand_empty_array:
  "executeCommand echoExeca Map.empty ''/'' ''/srv'' (CmdArray []) noOptions
     = Inr \<lparr> ok = False, exitCode = 1, stdout = [], stderr = [],
             error = Some ''Command array cannot be empty'' \<rparr>"
  by code_simp



section \<open>The result of a command\<close>

text \<open>
  White space is what \<^verbatim>\<open>String.prototype.trim\<close> strips: the no-break space, the byte
  order mark and the line and paragraph separators are, the next-line control and the
  zero-width space are not.
\<close>

lemma isWhitespace_examples:
  "isWhitespace 0x00A0" "isWhitespace 0xFEFF" "isWhitespace 0x2028" "isWhitespace 0x2029"
  "isWhitespace 0x3000" "isWhitespace 0x0020" "isWhitespace 0x000A"
  "\<not> isWhitespace 0x0085" "\<not> isWhitespace 0x180E" "\<not> isWhitespace 0x200B"
  "\<not> isWhitespace 0x0061"
  by (simp_all add: isWhitespace_def)



lemma dropWhile_all: "list_all P xs \<Longrightarrow> dropWhile P (xs @ ys) = dropWhile P ys"
  by (induction xs) simp_all

lemma trimOf_unique:
  assumes "trimOf s t"
  shows "t = trim s"
proof -
  from assms obtain pre post where d: "s = pre @ t @ post"
    and wpre: "list_all isWhitespace pre" and wpost: "list_all isWhitespace post"
    and ends: "t = [] \<or> (\<not> isWhitespace (hd t) \<and> \<not> isWhitespace (last t))"
    unfolding trimOf_def by blast
  have wrpost: "list_all isWhitespace (rev post)" using wpost by (simp add: list_all_iff)
  show ?thesis
  proof (cases "t = []")
    case True
    have "dropWhile isWhitespace post = []" using wpost by (simp add: list_all_iff)
    then have e: "dropWhile isWhitespace s = []"
      unfolding d using True dropWhile_all[OF wpre, of post] by simp
    show ?thesis unfolding trim_def e using True by simp
  next
    case False
    with ends have h: "\<not> isWhitespace (hd t)" and l: "\<not> isWhitespace (last t)" by simp_all
    have "dropWhile isWhitespace (t @ post) = t @ post"
      using False h by (cases t) simp_all
    then have a: "dropWhile isWhitespace s = t @ post"
      unfolding d using dropWhile_all[OF wpre, of "t @ post"] by simp
    have "dropWhile isWhitespace (rev t) = rev t"
      using False l by (cases "rev t") (simp_all add: hd_rev[symmetric])
    then have "dropWhile isWhitespace (rev (t @ post)) = rev t"
      using dropWhile_all[OF wrpost, of "rev t"] by simp
    then show ?thesis unfolding trim_def a by simp
  qed
qed






text \<open>
  The older copies return the same result whenever the value that \<^verbatim>\<open>execa\<close> rejects
  with carries a message, as the errors of \<^verbatim>\<open>execa\<close> do.
\<close>

lemma executeCommand_legacy_agrees:
  assumes "\<And>dir err. runCommand execa command (buildExecOpts processEnv dir options) = Inl err
             \<Longrightarrow> truthy (t_shortMessage err) \<or> truthy (t_message err)"
  shows "executeCommand_legacy execa processEnv cwd root command options
           = executeCommand execa processEnv cwd root command options"
  using assms
  by (auto simp: executeCommand_legacy_def executeCommand_def split: sum.splits)

section \<open>The existence test\<close>

text \<open>
  Claim C6: \<^verbatim>\<open>exists\<close> returns for every input and never raises; when the resolver
  accepts the path the answer is that of \<^verbatim>\<open>fs.pathExists\<close>, and when the resolver
  raises the answer is \<open>False\<close>. No other operation does this: with the same path,
  every other operation that resolves a path of its caller raises the resolver's
  error (for \<^verbatim>\<open>rename\<close> and \<^verbatim>\<open>copy\<close> in either position).
\<close>

theorem exists_never_raises:
  "(\<exists>b. exists fs w cwd root p = Inr b)
   \<and> (\<forall>a. relativeOrAbsolutePathToAbsolutePath cwd root p = Inr a
          \<longrightarrow> exists fs w cwd root p = Inr (fs_pathExists fs w a))
   \<and> (\<forall>e. relativeOrAbsolutePathToAbsolutePath cwd root p = Inl e
          \<longrightarrow> exists fs w cwd root p = Inr False
              \<and> writeFile fs w cwd root p content = Inl e
              \<and> appendFile fs w cwd root p content = Inl e
              \<and> deleteFile fs w cwd root p = Inl e
              \<and> readFile fs w cwd root p = Inl e
              \<and> getFile fs w cwd root p = Inl e
              \<and> stat fs w cwd root p = Inl e
              \<and> createDirectory fs w cwd root p recursive = Inl e
              \<and> chmod fs w cwd root p mode = Inl e
              \<and> rename fs w cwd root p q = Inl e
              \<and> (\<exists>e'. rename fs w cwd root q p = Inl e')
              \<and> copy fs w cwd root p q overwrite = Inl e
              \<and> (\<exists>e'. copy fs w cwd root q p overwrite = Inl e')
              \<and> relativeOrAbsolutePathToRelativePath cwd root p = Inl e
              \<and> (\<not> isFalsyCommand command
                   \<longrightarrow> executeCommand execa processEnv cwd root command
                         (options\<lparr> workingDirectory := Some p \<rparr>) = Inl e))"
  by (auto simp: exists_def writeFile_def appendFile_def deleteFile_def readFile_def
        getFile_def stat_def createDirectory_def chmod_def rename_def copy_def
        relativeOrAbsolutePathToRelativePath_def executeCommand_def
      split: sum.splits)

theorem exists_never_raises_witness:
  "relativeOrAbsolutePathToAbsolutePath ''/'' ''/srv'' ''/etc'' = Inl (Error ''Path /etc is outside the root directory'')
   \<and> exists memFs sampleFs ''/'' ''/srv'' ''/etc'' = Inr False
   \<and> fs_pathExists memFs sampleFs ''/etc''
   \<and> stat memFs sampleFs ''/'' ''/srv'' ''/etc'' = Inl (Error ''Path /etc is outside the root directory'')
   \<and> readFile memFs sampleFs ''/'' ''/srv'' ''/etc'' = Inl (Error ''Path /etc is outside the root directory'')"
proof -
  have r: "relativeOrAbsolutePathToAbsolutePath ''/'' ''/srv'' ''/etc''
             = Inl (Error ''Path /etc is outside the root directory'')"
    by code_simp
  have x: "fs_pathExists memFs sampleFs ''/etc''"
    by code_simp
  show ?thesis
    using r x exists_never_raises[of memFs sampleFs "''/''" "''/srv''" "''/etc''"]
    by simp
qed

section \<open>The ignore decision of the watcher\<close>

text \<open>
  Claim C9, as amended, for the function that \<^verbatim>\<open>watch\<close> of the provider installs: the
  root markers \<^verbatim>\<open>.\<close> and \<^verbatim>\<open>./\<close> are never ignored; the function never raises; for any
  other path a leading \<^verbatim>\<open>./\<close> is removed before the predicate is asked, the
  predicate's answer is the decision, and a raise of the predicate makes the path
  ignored. \<^verbatim>\<open>watch\<close> raises only when the directory does not exist and installs this
  function otherwise.
\<close>

theorem watchIgnored_decision:
  "watchIgnored ig ''.'' = Inr False
   \<and> watchIgnored ig ''./'' = Inr False
   \<and> (\<exists>b. watchIgnored ig watched = Inr b)
   \<and> (watched \<noteq> ''.'' \<and> watched \<noteq> ''./'' \<longrightarrow>
        (\<forall>rest. watched = ''./'' @ rest \<longrightarrow>
           watchIgnored ig watched = (case ig rest of Inl e \<Rightarrow> Inr True | Inr b \<Rightarrow> Inr b))
        \<and> (\<not> startsWith watched ''./'' \<longrightarrow>
           watchIgnored ig watched = (case ig watched of Inl e \<Rightarrow> Inr True | Inr b \<Rightarrow> Inr b)))
   \<and> (case watch fs w cwd root dir ig pollInterval stabilityThreshold of
         Inl e \<Rightarrow> \<not> fs_pathExists fs w (resolve cwd [root, dir])
       | Inr wt \<Rightarrow> wt_ignored wt = watchIgnored ig)"
  by (auto simp: watchIgnored_def watch_def startsWith_def split: sum.splits)

theorem watchIgnored_decision_witness:
  "''./a'' \<noteq> ''.'' \<and> ''./a'' \<noteq> ''./''
   \<and> raisingFilter ''a'' = Inl (Error ''boom'')
   \<and> watchIgnored raisingFilter ''./a'' = Inr True
   \<and> watchIgnored raisingFilter ''.'' = Inr False"
  using watchIgnored_decision[where ig = raisingFilter and watched = "''./a''" and fs = memFs
      and w = sampleFs and cwd = "''/''" and root = "''/srv''" and dir = "[]"
      and pollInterval = None and stabilityThreshold = None]
  by (simp add: raisingFilter_def)

text \<open>
  The legacy function has no \<^verbatim>\<open>try\<close>: a raise of the predicate leaves it, where the
  provider's function answers \<open>True\<close>.
\<close>

theorem watchIgnored_legacy_propagates:
  "watchIgnored_legacy raisingFilter ''./a'' = Inl (Error ''boom'')
   \<and> watchIgnored raisingFilter ''./a'' = Inr True"
  by (simp add: watchIgnored_legacy_def watchIgnored_def raisingFilter_def startsWith_def)

section \<open>The walk yields nothing that is ignored\<close>

text \<open>
  An item that the predicate lets pass is accounted for by the line of descent that
  consists of its own path; what the walk yields inside a directory is accounted for
  by the directory's path followed by the line found there.
\<close>

lemma accounted_here:
  assumes "fs_readdir fs w absoluteDir = Inr items" and "item \<in> set items"
    and "relPath = relative cwd root (join [absoluteDir, d_name item])"
    and "ignoreFilter relPath = Inr False"
    and "entry = relPath \<or> entry = relPath @ ''/''"
  shows "accounted fs w cwd root ignoreFilter absoluteDir entry"
proof -
  have "descentFrom fs w cwd root absoluteDir [relPath]"
    using assms(1,2,3) by (auto simp: list_ex_iff)
  then show ?thesis
    unfolding accounted_def using assms(4,5)
    by (intro exI[of _ "[relPath]"]) simp
qed

lemma accounted_below:
  assumes "fs_readdir fs w absoluteDir = Inr items" and "item \<in> set items"
    and "d_isDirectory item"
    and "relPath = relative cwd root (join [absoluteDir, d_name item])"
    and "ignoreFilter relPath = Inr False"
    and "accounted fs w cwd root ignoreFilter (resolve cwd [root, relPath]) entry"
  shows "accounted fs w cwd root ignoreFilter absoluteDir entry"
proof -
  from assms(6) obtain chain where c: "chain \<noteq> []"
    "descentFrom fs w cwd root (resolve cwd [root, relPath]) chain"
    "entry = last chain \<or> entry = last chain @ ''/''"
    "list_all (\<lambda>r. ignoreFilter r = Inr False) chain"
    unfolding accounted_def by blast
  have "descentFrom fs w cwd root absoluteDir (relPath # chain)"
    using assms(1,2,3,4) c(2) by (auto simp: list_ex_iff)
  moreover have "last (relPath # chain) = last chain" using c(1) by simp
  ultimately show ?thesis
    unfolding accounted_def using c(1,3,4) assms(5)
    by (intro exI[of _ "relPath # chain"]) simp
qed

text \<open>
  The loop over the items of a directory, given that the walks it starts one level
  down account for what they yield; then the walk itself, by induction on the depth
  bound.
\<close>

lemma walkItems_accounted:
  assumes tree: "\<And>dir recursive entry.
      entry \<in> set (fst (getDirectoryTree n fs w cwd root ignoreFilter dir recursive))
      \<Longrightarrow> accounted fs w cwd root ignoreFilter (resolve cwd [root, dir]) entry"
    and rd: "fs_readdir fs w absoluteDir = Inr allItems"
  shows "set items \<subseteq> set allItems
         \<Longrightarrow> entry \<in> set (fst (walkItems n fs w cwd root ignoreFilter absoluteDir recursive items))
         \<Longrightarrow> accounted fs w cwd root ignoreFilter absoluteDir entry"
proof (induction items)
  case Nil
  then show ?case by simp
next
  case (Cons item rest)
  define relPath where "relPath = relative cwd root (join [absoluteDir, d_name item])"
  have mem: "item \<in> set allItems" using Cons.prems(1) by simp
  have sub: "set rest \<subseteq> set allItems" using Cons.prems(1) by simp
  note IH = Cons.IH[OF sub]
  show ?case
  proof (cases "ignoreFilter relPath")
    case (Inl e)
    then show ?thesis using Cons.prems(2) by (simp add: relPath_def Let_def)
  next
    case (Inr b)
    show ?thesis
    proof (cases b)
      case True
      then show ?thesis using Cons.prems(2) Inr IH by (simp add: relPath_def Let_def)
    next
      case False
      with Inr have ig: "ignoreFilter relPath = Inr False" by simp
      have here: "\<And>e. e = relPath \<or> e = relPath @ ''/''
                    \<Longrightarrow> accounted fs w cwd root ignoreFilter absoluteDir e"
        using accounted_here[where ignoreFilter = ignoreFilter and relPath = relPath,
            OF rd mem relPath_def ig] by blast
      show ?thesis
      proof (cases "d_isDirectory item")
        case notdir: False
        then have "entry = relPath
                    \<or> entry \<in> set (fst (walkItems n fs w cwd root ignoreFilter absoluteDir recursive rest))"
          using Cons.prems(2) ig
          by (auto simp: relPath_def[symmetric] Let_def split: prod.splits)
        then show ?thesis using here IH by blast
      next
        case isdir: True
        show ?thesis
        proof (cases recursive)
          case False
          then have "entry = relPath @ ''/''
                    \<or> entry \<in> set (fst (walkItems n fs w cwd root ignoreFilter absoluteDir recursive rest))"
            using Cons.prems(2) ig isdir
            by (auto simp: relPath_def[symmetric] Let_def split: prod.splits)
          then show ?thesis using here IH by blast
        next
          case True
          then have "entry = relPath @ ''/''
                    \<or> entry \<in> set (fst (getDirectoryTree n fs w cwd root ignoreFilter relPath True))
                    \<or> entry \<in> set (fst (walkItems n fs w cwd root ignoreFilter absoluteDir recursive rest))"
            using Cons.prems(2) ig isdir
            by (auto simp: relPath_def[symmetric] Let_def split: prod.splits option.splits)
          moreover have "entry \<in> set (fst (getDirectoryTree n fs w cwd root ignoreFilter relPath True))
                \<Longrightarrow> accounted fs w cwd root ignoreFilter absoluteDir entry"
            using accounted_below[where ignoreFilter = ignoreFilter and relPath = relPath,
                OF rd mem isdir relPath_def ig] tree by blast
          ultimately show ?thesis using here IH by blast
        qed
      qed
    qed
  qed
qed

lemma getDirectoryTree_accounted:
  "entry \<in> set (fst (getDirectoryTree n fs w cwd root ignoreFilter dir recursive))
   \<Longrightarrow> accounted fs w cwd root ignoreFilter (resolve cwd [root, dir]) entry"
proof (induction n arbitrary: dir recursive entry)
  case 0
  then show ?case by simp
next
  case (Suc n)
  show ?case
  proof (cases "fs_readdir fs w (resolve cwd [root, dir])")
    case (Inl e)
    then show ?thesis using Suc.prems by simp
  next
    case (Inr items)
    then have "entry \<in> set (fst (walkItems n fs w cwd root ignoreFilter
                                   (resolve cwd [root, dir]) recursive items))"
      using Suc.prems by simp
    then show ?thesis
      using walkItems_accounted[where items = items and entry = entry
          and recursive = recursive, OF Suc.IH Inr] by simp
  qed
qed

section \<open>Paths built from proper segments\<close>

text \<open>
  Splitting and joining at the separator are inverse on segments that hold no
  separator, and normalising leaves proper segments as they are.
\<close>

lemma splitOn_nonempty: "splitOn sep s \<noteq> []"
  by (induction s) (auto split: list.splits)

lemma splitOn_append:
  "splitOn sep (a @ sep # b) = splitOn sep a @ splitOn sep b"
proof (induction a)
  case Nil
  then show ?case by simp
next
  case (Cons c a)
  obtain x xs where s: "splitOn sep a = x # xs"
    using splitOn_nonempty[of sep a] by (cases "splitOn sep a") auto
  show ?case using Cons s by simp
qed

lemma splitOn_single: "sep \<notin> set s \<Longrightarrow> splitOn sep s = [s]"
  by (induction s) auto

lemma splitOn_joinWith:
  "segs \<noteq> [] \<Longrightarrow> \<forall>s \<in> set segs. sep \<notin> set s
   \<Longrightarrow> splitOn sep (joinWith [sep] segs) = segs"
proof (induction segs)
  case Nil
  then show ?case by simp
next
  case (Cons x xs)
  show ?case
  proof (cases xs)
    case Nil
    then show ?thesis using Cons.prems by (simp add: splitOn_single)
  next
    case (Cons y ys)
    then have "splitOn sep (joinWith [sep] xs) = xs" using Cons.IH Cons.prems by simp
    then show ?thesis
      using Cons Cons.prems splitOn_append[of sep x "joinWith [sep] xs"]
      by (simp add: splitOn_single)
  qed
qed

lemma normSegs_append_True:
  "normSegs True res (xs @ ys) = normSegs True (normSegs True res xs) ys"
  by (induction xs arbitrary: res) simp_all

lemma normSegs_append_False:
  "normSegs False res (xs @ ys) = normSegs False (normSegs False res xs) ys"
  by (induction xs arbitrary: res) simp_all

lemma normSegs_append:
  "normSegs allow res (xs @ ys) = normSegs allow (normSegs allow res xs) ys"
  by (cases allow) (simp_all add: normSegs_append_True normSegs_append_False)

lemma normSegs_proper:
  "\<forall>s \<in> set xs. properSeg s \<Longrightarrow> normSegs allow res xs = res @ xs"
  by (induction xs arbitrary: res) (simp_all add: properSeg_def)

lemma normSegs_keeps_proper:
  "list_all properSeg res \<Longrightarrow> list_all (\<lambda>s. CHR ''/'' \<notin> set s) xs
   \<Longrightarrow> list_all properSeg (normSegs False res xs)"
proof (induction xs arbitrary: res)
  case Nil
  then show ?case by simp
next
  case (Cons x xs)
  have tl: "list_all (\<lambda>s. CHR ''/'' \<notin> set s) xs" using Cons.prems(2) by simp
  have bl: "list_all properSeg (butlast res)"
    using Cons.prems(1) unfolding list_all_iff by (meson in_set_butlastD)
  consider (skip) "x = [] \<or> x = ''.''" | (up) "x = ''..''" | (push) "x \<noteq> [] \<and> x \<noteq> ''.'' \<and> x \<noteq> ''..''"
    by blast
  then show ?case
  proof cases
    case skip
    then show ?thesis using Cons.IH[OF Cons.prems(1) tl] by auto
  next
    case up
    then show ?thesis using Cons.IH[OF Cons.prems(1) tl] Cons.IH[OF bl tl] by simp
  next
    case push
    have "properSeg x" using push Cons.prems(2) by (simp add: properSeg_def)
    then have "list_all properSeg (res @ [x])" using Cons.prems(1) by simp
    from Cons.IH[OF this tl] show ?thesis using push by simp
  qed
qed

lemma splitOn_no_sep: "list_all (\<lambda>s. sep \<notin> set s) (splitOn sep p)"
proof (induction p)
  case Nil
  then show ?case by simp
next
  case (Cons c p)
  obtain x xs where s: "splitOn sep p = x # xs"
    using splitOn_nonempty[of sep p] by (cases "splitOn sep p") auto
  show ?case using Cons s by simp
qed

lemma joinWith_nonempty:
  assumes "segs \<noteq> []" and "list_all properSeg segs"
  shows "joinWith ''/'' segs \<noteq> []"
proof (cases segs)
  case Nil
  then show ?thesis using assms by simp
next
  case (Cons x xs)
  then show ?thesis using assms by (cases xs) (auto simp: properSeg_def)
qed

lemma joinWith_relative:
  assumes "segs \<noteq> []" and "list_all properSeg segs"
  shows "\<not> isAbsolute (joinWith ''/'' segs)"
proof (cases segs)
  case Nil
  then show ?thesis using assms by simp
next
  case (Cons x xs)
  then show ?thesis using assms
    by (cases xs; cases x) (auto simp: properSeg_def isAbsolute_def)
qed

lemma joinWith_snoc:
  "segs \<noteq> [] \<Longrightarrow> joinWith sep (segs @ [x]) = joinWith sep segs @ sep @ x"
  by (induction sep segs rule: joinWith.induct) simp_all

lemma splitOn_joinWith_proper:
  "segs \<noteq> [] \<Longrightarrow> list_all properSeg segs \<Longrightarrow> splitOn (CHR ''/'') (joinWith ''/'' segs) = segs"
  using splitOn_joinWith[of segs "CHR ''/''"] by (simp add: list_all_iff properSeg_def)

text \<open>
  With an absolute root, the directory that the walk reads for a root-relative path of
  proper segments is the root's normalised segments followed by those of the path;
  joining a name to it appends the name; and the path of the result relative to the
  root is the path walked followed by the name.
\<close>

lemma rootSegs_proper: "list_all properSeg (normSegs False [] (splitOn (CHR ''/'') root))"
  using normSegs_keeps_proper[of "[]" "splitOn (CHR ''/'') root"] splitOn_no_sep[of "CHR ''/''" root]
  by simp

lemma normalizeString_root_dir:
  assumes "list_all properSeg D"
  shows "normalizeString (root @ ''/'' @ (if D = [] then [] else joinWith ''/'' D @ ''/'')) False
           = joinWith ''/'' (normSegs False [] (splitOn (CHR ''/'') root) @ D)"
proof (cases "D = []")
  case True
  then show ?thesis
    using splitOn_append[of "CHR ''/''" root "[]"]
    by (simp add: normalizeString_def normSegs_append)
next
  case False
  have "splitOn (CHR ''/'') (root @ CHR ''/'' # (joinWith ''/'' D @ CHR ''/'' # []))
          = splitOn (CHR ''/'') root @ D @ [[]]"
    using splitOn_append[of "CHR ''/''" root "joinWith ''/'' D @ CHR ''/'' # []"]
      splitOn_append[of "CHR ''/''" "joinWith ''/'' D" "[]"]
      splitOn_joinWith_proper[OF False assms]
    by simp
  then show ?thesis
    using False assms
    by (simp add: normalizeString_def normSegs_append normSegs_proper list_all_iff)
qed

lemma resolve_root_dir:
  assumes "isAbsolute root" and "list_all properSeg D"
  shows "resolve cwd [root, joinWith ''/'' D]
           = ''/'' @ joinWith ''/'' (normSegs False [] (splitOn (CHR ''/'') root) @ D)"
proof (cases "D = []")
  case True
  have "root \<noteq> []" using assms(1) by (auto simp: isAbsolute_def)
  then have "resolveLoop [[], root, cwd] [] = (root @ ''/'', True)"
    using assms(1) by simp
  then show ?thesis
    using True normalizeString_root_dir[OF assms(2), of root]
    by (simp add: resolve_def)
next
  case False
  have "root \<noteq> []" using assms(1) by (auto simp: isAbsolute_def)
  then have "resolveLoop [joinWith ''/'' D, root, cwd] []
               = (root @ ''/'' @ joinWith ''/'' D @ ''/'', True)"
    using assms(1) joinWith_nonempty[OF False assms(2)] joinWith_relative[OF False assms(2)]
    by simp
  then show ?thesis
    using False normalizeString_root_dir[OF assms(2), of root]
    by (simp add: resolve_def)
qed

lemma resolve_root:
  assumes "isAbsolute root"
  shows "resolve cwd [root] = ''/'' @ joinWith ''/'' (normSegs False [] (splitOn (CHR ''/'') root))"
proof -
  have "resolve cwd [root] = resolve cwd [root, joinWith ''/'' []]"
    by (simp add: resolve_def)
  then show ?thesis using resolve_root_dir[OF assms, of "[]" cwd] by simp
qed

lemma splitOn_abs:
  assumes "list_all properSeg S"
  shows "normSegs False [] (splitOn (CHR ''/'') (''/'' @ joinWith ''/'' S)) = S"
proof (cases "S = []")
  case True
  then show ?thesis by simp
next
  case False
  have "splitOn (CHR ''/'') (CHR ''/'' # joinWith ''/'' S) = [] # S"
    using splitOn_joinWith_proper[OF False assms] by simp
  then show ?thesis using assms by (simp add: normSegs_proper list_all_iff)
qed

lemma resolve_abs_norm:
  assumes "list_all properSeg S"
  shows "resolve cwd [''/'' @ joinWith ''/'' S] = ''/'' @ joinWith ''/'' S"
proof -
  have a: "isAbsolute (''/'' @ joinWith ''/'' S)" by (simp add: isAbsolute_def)
  from resolve_root[OF a, of cwd] splitOn_abs[OF assms] show ?thesis by simp
qed

lemma pathSegs_abs:
  assumes "list_all properSeg S"
  shows "pathSegs (''/'' @ joinWith ''/'' S) = S"
proof (cases "S = []")
  case True
  then show ?thesis by (simp add: pathSegs_def)
next
  case False
  have "splitOn (CHR ''/'') (CHR ''/'' # joinWith ''/'' S) = [] # S"
    using splitOn_joinWith_proper[OF False assms] by simp
  moreover have "filter (\<lambda>s. s \<noteq> []) S = S"
    using assms by (simp add: list_all_iff properSeg_def)
  ultimately show ?thesis by (simp add: pathSegs_def)
qed

lemma join_abs_name:
  assumes "list_all properSeg S" and "properSeg name"
  shows "join [''/'' @ joinWith ''/'' S, name] = ''/'' @ joinWith ''/'' (S @ [name])"
proof -
  have ne: "name \<noteq> []" and ns: "CHR ''/'' \<notin> set name"
    using assms(2) by (auto simp: properSeg_def)
  have nl: "last name \<noteq> CHR ''/''"
    using last_in_set[OF ne] ns by auto
  have sp: "splitOn (CHR ''/'') (CHR ''/'' # joinWith ''/'' S @ CHR ''/'' # name)
              = [] # (if S = [] then [[]] else S) @ [name]"
    using splitOn_append[of "CHR ''/''" "joinWith ''/'' S" name] assms
      splitOn_joinWith_proper[of S]
    by (auto simp: splitOn_single properSeg_def)
  have all: "list_all properSeg (S @ [name])" using assms by simp
  have n: "normalizeString (CHR ''/'' # joinWith ''/'' S @ CHR ''/'' # name) False
             = joinWith ''/'' (S @ [name])"
    using sp assms all by (auto simp: normalizeString_def normSegs_proper list_all_iff properSeg_def)
  have nn: "joinWith ''/'' (S @ [name]) \<noteq> []"
    using joinWith_nonempty[OF _ all] by simp
  show ?thesis
    using ne nl n nn
    by (simp add: join_def normalize_def isAbsolute_def Let_def)
qed

lemma commonPrefixLen_append: "commonPrefixLen xs (xs @ ys) = length xs"
  by (induction xs) simp_all

lemma relative_child:
  assumes "isAbsolute root" and "list_all properSeg X" and "X \<noteq> []"
  shows "relative cwd root (''/'' @ joinWith ''/'' (normSegs False [] (splitOn (CHR ''/'') root) @ X))
           = joinWith ''/'' X"
proof -
  define R where "R = normSegs False [] (splitOn (CHR ''/'') root)"
  have rp: "list_all properSeg R" unfolding R_def by (rule rootSegs_proper)
  have all: "list_all properSeg (R @ X)" using rp assms(2) by simp
  have f: "resolve cwd [root] = ''/'' @ joinWith ''/'' R"
    unfolding R_def by (rule resolve_root[OF assms(1)])
  have t: "resolve cwd [''/'' @ joinWith ''/'' (R @ X)] = ''/'' @ joinWith ''/'' (R @ X)"
    by (rule resolve_abs_norm[OF all])
  have ne: "resolve cwd [root] \<noteq> resolve cwd [''/'' @ joinWith ''/'' (R @ X)]"
  proof
    assume "resolve cwd [root] = resolve cwd [''/'' @ joinWith ''/'' (R @ X)]"
    then have "pathSegs (''/'' @ joinWith ''/'' R) = pathSegs (''/'' @ joinWith ''/'' (R @ X))"
      using f t by simp
    then have "R = R @ X" using pathSegs_abs[OF rp] pathSegs_abs[OF all] by simp
    then show False using assms(3) by simp
  qed
  then have ne': "root \<noteq> ''/'' @ joinWith ''/'' (R @ X)" by auto
  show ?thesis
    using ne ne' f t pathSegs_abs[OF rp] pathSegs_abs[OF all]
    unfolding R_def[symmetric]
    by (simp add: relative_def Let_def commonPrefixLen_append)
qed

lemma relPath_of_item:
  assumes "isAbsolute root" and "list_all properSeg D" and "properSeg name"
  shows "relative cwd root (join [resolve cwd [root, joinWith ''/'' D], name])
           = joinWith ''/'' (D @ [name])"
proof -
  define R where "R = normSegs False [] (splitOn (CHR ''/'') root)"
  have rp: "list_all properSeg R" unfolding R_def by (rule rootSegs_proper)
  have "join [resolve cwd [root, joinWith ''/'' D], name] = ''/'' @ joinWith ''/'' (R @ (D @ [name]))"
    using resolve_root_dir[OF assms(1,2), of cwd] join_abs_name[of "R @ D" name] rp assms(2,3)
    unfolding R_def[symmetric] by simp
  then show ?thesis
    using relative_child[OF assms(1), of "D @ [name]" cwd] assms(2,3)
    unfolding R_def[symmetric] by simp
qed

section \<open>The line of descent, read from the entry\<close>

text \<open>
  In a file system with proper names under an absolute root, a line of descent from
  the directory \<open>D\<close> consists of \<open>D\<close> followed by the prefixes, one longer each time, of a
  list of names: the paths of the line are the path of its last item and the paths of
  the ancestors of that item below \<open>D\<close>, as they are written.
\<close>

lemma descentFrom_lexical:
  assumes "isAbsolute root" and "properNames fs w"
  shows "list_all properSeg D
         \<Longrightarrow> descentFrom fs w cwd root (resolve cwd [root, joinWith ''/'' D]) chain
         \<Longrightarrow> \<exists>N. length N = length chain \<and> list_all properSeg N
                 \<and> chain = map (\<lambda>P. joinWith ''/'' (D @ P)) (tl (prefixes N))"
proof (induction chain arbitrary: D)
  case Nil
  show ?case by (rule exI[of _ "[]"]) simp
next
  case (Cons r rs)
  from Cons.prems(2) obtain items item where
    rd: "fs_readdir fs w (resolve cwd [root, joinWith ''/'' D]) = Inr items"
    and it: "item \<in> set items"
    and r: "r = relative cwd root (join [resolve cwd [root, joinWith ''/'' D], d_name item])"
    and rest: "descentFrom fs w cwd root (resolve cwd [root, r]) rs"
    by (auto simp: list_ex_iff split: sum.splits)
  have nm: "properSeg (d_name item)"
    using assms(2) rd it unfolding properNames_def list_all_iff by blast
  have r': "r = joinWith ''/'' (D @ [d_name item])"
    unfolding r by (rule relPath_of_item[OF assms(1) Cons.prems(1) nm])
  have pd: "list_all properSeg (D @ [d_name item])" using Cons.prems(1) nm by simp
  from Cons.IH[OF pd] rest r' obtain N where
    n: "length N = length rs" "list_all properSeg N"
       "rs = map (\<lambda>P. joinWith ''/'' ((D @ [d_name item]) @ P)) (tl (prefixes N))"
    by auto
  have "tl (prefixes (d_name item # N)) = [d_name item] # map ((#) (d_name item)) (tl (prefixes N))"
    by (cases N) simp_all
  then have A: "r # rs = map (\<lambda>P. joinWith ''/'' (D @ P)) (tl (prefixes (d_name item # N)))"
    using r' n(3) by (simp add: comp_def)
  have B: "length (d_name item # N) = length (r # rs)" using n(1) by simp
  have C: "list_all properSeg (d_name item # N)" using nm n(2) by simp
  show ?case
    by (rule exI[of _ "d_name item # N"]) (intro conjI B C A)
qed

lemma getDirectoryTree_lexical:
  assumes "isAbsolute root" and "properNames fs w" and "list_all properSeg D"
    and "entry \<in> set (fst (getDirectoryTree n fs w cwd root ignoreFilter (joinWith ''/'' D) recursive))"
  shows "\<exists>N. N \<noteq> [] \<and> list_all properSeg N
           \<and> (entry = joinWith ''/'' (D @ N) \<or> entry = joinWith ''/'' (D @ N) @ ''/'')
           \<and> (\<forall>P. P \<noteq> [] \<and> prefix P N \<longrightarrow> ignoreFilter (joinWith ''/'' (D @ P)) = Inr False)"
proof -
  from getDirectoryTree_accounted[OF assms(4)] obtain chain where
    c: "chain \<noteq> []"
       "descentFrom fs w cwd root (resolve cwd [root, joinWith ''/'' D]) chain"
       "entry = last chain \<or> entry = last chain @ ''/''"
       "list_all (\<lambda>r. ignoreFilter r = Inr False) chain"
    unfolding accounted_def by blast
  from descentFrom_lexical[OF assms(1,2,3) c(2)] obtain N where
    n: "length N = length chain" "list_all properSeg N"
       "chain = map (\<lambda>P. joinWith ''/'' (D @ P)) (tl (prefixes N))"
    by blast
  have ne: "N \<noteq> []" using n(1) c(1) by auto
  have tlne: "tl (prefixes N) \<noteq> []" using ne by (cases N) simp_all
  have "last (tl (prefixes N)) = last (prefixes N)"
    using tlne by (cases "prefixes N") simp_all
  then have "last (tl (prefixes N)) = N" by simp
  then have lc: "last chain = joinWith ''/'' (D @ N)"
    using n(3) tlne by (simp add: last_map)
  have "\<forall>P. P \<noteq> [] \<and> prefix P N \<longrightarrow> ignoreFilter (joinWith ''/'' (D @ P)) = Inr False"
  proof (intro allI impI)
    fix P assume p: "P \<noteq> [] \<and> prefix P N"
    then have "P \<in> set (prefixes N)" by (simp add: in_set_prefixes)
    then have "P \<in> set (tl (prefixes N))" using p by (cases N) auto
    then have "joinWith ''/'' (D @ P) \<in> set chain" unfolding n(3) by simp
    then show "ignoreFilter (joinWith ''/'' (D @ P)) = Inr False"
      using c(4) unfolding list_all_iff by blast
  qed
  then have al: "\<forall>P. P \<noteq> [] \<and> prefix P N \<longrightarrow> ignoreFilter (joinWith ''/'' (D @ P)) = Inr False" .
  have en: "entry = joinWith ''/'' (D @ N) \<or> entry = joinWith ''/'' (D @ N) @ ''/''"
    using c(3) unfolding lc .
  show ?thesis
    by (rule exI[of _ N]) (intro conjI ne n(2) en al)
qed

text \<open>
  Claim C7: whatever the file system, the predicate, the directory walked and the
  recursion flag, and whether the walk ends, raises or is cut off, every entry it
  yields has a line of descent below the walk root (its own root-relative path last,
  the root-relative paths of its ancestor directories before it) on which the
  predicate has answered \<open>False\<close> throughout. An ignored directory is therefore never
  entered, and nothing below it is yielded. When the root is absolute and the names
  of the file system are proper, the same is read from the entry itself: it is the
  walk root's segments \<open>D\<close> followed by names \<open>N\<close>, and the predicate has answered
  \<open>False\<close> for \<open>D\<close> followed by every prefix of \<open>N\<close> that is not empty, that is for the
  entry's own path and for the path of each of its ancestors below the walk root.
\<close>

theorem getDirectoryTree_never_yields_ignored:
  assumes "entry \<in> set (fst (getDirectoryTree n fs w cwd root ignoreFilter dir recursive))"
  shows "(\<exists>chain. chain \<noteq> []
            \<and> descent fs w cwd root dir chain
            \<and> (entry = last chain \<or> entry = last chain @ ''/'')
            \<and> (\<forall>r \<in> set chain. ignoreFilter r = Inr False))
         \<and> (isAbsolute root \<and> properNames fs w \<longrightarrow>
              (\<forall>D. list_all properSeg D \<and> dir = joinWith ''/'' D \<longrightarrow>
                 (\<exists>N. N \<noteq> [] \<and> list_all properSeg N
                    \<and> (entry = joinWith ''/'' (D @ N) \<or> entry = joinWith ''/'' (D @ N) @ ''/'')
                    \<and> (\<forall>P. P \<noteq> [] \<and> prefix P N
                           \<longrightarrow> ignoreFilter (joinWith ''/'' (D @ P)) = Inr False))))"
proof (intro conjI impI allI)
  show "\<exists>chain. chain \<noteq> []
            \<and> descent fs w cwd root dir chain
            \<and> (entry = last chain \<or> entry = last chain @ ''/'')
            \<and> (\<forall>r \<in> set chain. ignoreFilter r = Inr False)"
    using getDirectoryTree_accounted[OF assms]
    unfolding accounted_def descent_def list_all_iff by blast
next
  fix D
  assume a: "isAbsolute root \<and> properNames fs w"
    and d: "list_all properSeg D \<and> dir = joinWith ''/'' D"
  from a have a1: "isAbsolute root" and a2: "properNames fs w" by simp_all
  from d have d1: "list_all properSeg D" by simp
  from d assms
  have m: "entry \<in> set (fst (getDirectoryTree n fs w cwd root ignoreFilter (joinWith ''/'' D) recursive))"
    by simp
  show "\<exists>N. N \<noteq> [] \<and> list_all properSeg N
           \<and> (entry = joinWith ''/'' (D @ N) \<or> entry = joinWith ''/'' (D @ N) @ ''/'')
           \<and> (\<forall>P. P \<noteq> [] \<and> prefix P N \<longrightarrow> ignoreFilter (joinWith ''/'' (D @ P)) = Inr False)"
    by (rule getDirectoryTree_lexical[OF a1 a2 d1 m])
qed

text \<open>
  On the sample tree, with \<^verbatim>\<open>node_modules\<close> ignored, the walk yields three entries and
  nothing of \<^verbatim>\<open>node_modules\<close>.
\<close>

lemma sample_walk:
  "getDirectoryTree 3 memFs sampleFs ''/'' ''/srv/root'' ignoreNodeModules [] True
     = ([''a.txt'', ''src/'', ''src/main.ts''], None)"
  by code_simp

text \<open>The names of the sample tree are proper.\<close>

lemma sampleFs_properNames: "properNames memFs sampleFs"
  unfolding properNames_def
proof (intro allI impI)
  fix p items
  assume "fs_readdir memFs sampleFs p = Inr items"
  then have eq: "items = map (\<lambda>(q, nd). \<lparr> d_name = last (splitOn (CHR ''/'') q),
                                 d_isDirectory = (nd = DirNode) \<rparr>)
                 (filter (\<lambda>(q, nd). q \<noteq> p \<and> dirname q = p) sampleFs)"
    by (simp add: memFs_def memReaddir_def split: option.splits node.splits)
  have all: "list_all (\<lambda>(q, nd). properSeg (last (splitOn (CHR ''/'') q))) sampleFs"
    by code_simp
  have "\<forall>item \<in> set items. properSeg (d_name item)"
  proof
    fix item assume "item \<in> set items"
    then obtain q nd where m: "(q, nd) \<in> set sampleFs"
      and i: "item = \<lparr> d_name = last (splitOn (CHR ''/'') q), d_isDirectory = (nd = DirNode) \<rparr>"
      unfolding eq by auto
    from all m have "properSeg (last (splitOn (CHR ''/'') q))"
      unfolding list_all_iff by blast
    then show "properSeg (d_name item)" unfolding i by simp
  qed
  then show "list_all (\<lambda>item. properSeg (d_name item)) items"
    unfolding list_all_iff .
qed

theorem getDirectoryTree_never_yields_ignored_witness:
  "''src/main.ts'' \<in> set (fst (getDirectoryTree 3 memFs sampleFs ''/'' ''/srv/root'' ignoreNodeModules [] True))
   \<and> ''node_modules/dep.js'' \<notin> set (fst (getDirectoryTree 3 memFs sampleFs ''/'' ''/srv/root'' ignoreNodeModules [] True))
   \<and> ignoreNodeModules ''node_modules'' = Inr True
   \<and> isAbsolute ''/srv/root'' \<and> properNames memFs sampleFs
   \<and> (\<exists>chain. chain \<noteq> []
           \<and> descent memFs sampleFs ''/'' ''/srv/root'' [] chain
           \<and> (''src/main.ts'' = last chain \<or> ''src/main.ts'' = last chain @ ''/'')
           \<and> list_all (\<lambda>r. ignoreNodeModules r = Inr False) chain)
   \<and> (\<exists>N. N \<noteq> [] \<and> list_all properSeg N
           \<and> (''src/main.ts'' = joinWith ''/'' N \<or> ''src/main.ts'' = joinWith ''/'' N @ ''/'')
           \<and> list_all (\<lambda>P. ignoreNodeModules (joinWith ''/'' P) = Inr False) (tl (prefixes N)))"
proof -
  have m: "''src/main.ts'' \<in> set (fst (getDirectoryTree 3 memFs sampleFs ''/'' ''/srv/root'' ignoreNodeModules [] True))"
    by (simp add: sample_walk)
  have n: "''node_modules/dep.js'' \<notin> set (fst (getDirectoryTree 3 memFs sampleFs ''/'' ''/srv/root'' ignoreNodeModules [] True))"
    by (simp add: sample_walk)
  have i: "ignoreNodeModules ''node_modules'' = Inr True"
    by code_simp
  have a: "isAbsolute ''/srv/root''" by (simp add: isAbsolute_def)
  note t = getDirectoryTree_never_yields_ignored[OF m]
  from t have c: "\<exists>chain. chain \<noteq> []
           \<and> descent memFs sampleFs ''/'' ''/srv/root'' [] chain
           \<and> (''src/main.ts'' = last chain \<or> ''src/main.ts'' = last chain @ ''/'')
           \<and> list_all (\<lambda>r. ignoreNodeModules r = Inr False) chain"
    unfolding list_all_iff by blast
  from t a sampleFs_properNames
  have "\<forall>D. list_all properSeg D \<and> [] = joinWith ''/'' D \<longrightarrow>
                 (\<exists>N. N \<noteq> [] \<and> list_all properSeg N
                    \<and> (''src/main.ts'' = joinWith ''/'' (D @ N) \<or> ''src/main.ts'' = joinWith ''/'' (D @ N) @ ''/'')
                    \<and> (\<forall>P. P \<noteq> [] \<and> prefix P N
                           \<longrightarrow> ignoreNodeModules (joinWith ''/'' (D @ P)) = Inr False))"
    by blast
  from this[rule_format, of "[]"] obtain N where
    N: "N \<noteq> []" "list_all properSeg N"
       "''src/main.ts'' = joinWith ''/'' N \<or> ''src/main.ts'' = joinWith ''/'' N @ ''/''"
       "\<forall>P. P \<noteq> [] \<and> prefix P N \<longrightarrow> ignoreNodeModules (joinWith ''/'' P) = Inr False"
    by auto
  have "list_all (\<lambda>P. ignoreNodeModules (joinWith ''/'' P) = Inr False) (tl (prefixes N))"
    unfolding list_all_iff
  proof
    fix P assume p: "P \<in> set (tl (prefixes N))"
    then have "P \<in> set (prefixes N)" by (cases "prefixes N") auto
    then have pr: "prefix P N" by (simp add: in_set_prefixes)
    have "P \<noteq> []" using p by (cases N) auto
    with pr N(4) show "ignoreNodeModules (joinWith ''/'' P) = Inr False" by blast
  qed
  with N(1,2,3) have l: "\<exists>N. N \<noteq> [] \<and> list_all properSeg N
           \<and> (''src/main.ts'' = joinWith ''/'' N \<or> ''src/main.ts'' = joinWith ''/'' N @ ''/'')
           \<and> list_all (\<lambda>P. ignoreNodeModules (joinWith ''/'' P) = Inr False) (tl (prefixes N))"
    by (intro exI[of _ N] conjI)
  show ?thesis
    by (intro conjI m n i a sampleFs_properNames c l)
qed

section \<open>The two filters of the search\<close>

lemma filterNotIgnored_kept:
  "filterNotIgnored ig xs = Inr kept \<Longrightarrow> kept = filter (\<lambda>f. ig f = Inr False) xs"
proof (induction xs arbitrary: kept)
  case Nil
  then show ?case by simp
next
  case (Cons x xs)
  then show ?case by (auto split: sum.splits if_splits)
qed

lemma grepFile_file:
  "res \<in> set (grepFile searchString linesBefore linesAfter target content) \<Longrightarrow> gr_file res = target"
  by (auto simp: grepFile_def Let_def split: if_splits)

lemma searchFile_file:
  "res \<in> set (searchFile fs w cwd root searchString linesBefore linesAfter target)
   \<Longrightarrow> gr_file res = relative cwd root target"
  by (auto simp: searchFile_def dest: grepFile_file split: sum.splits)

lemma filesToSearch_filtered:
  assumes "filesToSearch n fs w cwd root (Some ig) = Inr files" and "target \<in> set files"
  shows "ig target = Inr False
         \<and> (\<exists>entry. target = join [root, entry]
               \<and> accounted fs w cwd root ig (resolve cwd [root, []]) entry)"
proof -
  obtain ys where walk: "getDirectoryTree n fs w cwd root ig [] True = (ys, None)"
    and filt: "filterNotIgnored ig (map (\<lambda>f. join [root, f]) ys) = Inr files"
    using assms(1)
    by (auto simp: filesToSearch_def Let_def split: prod.splits option.splits)
  from filterNotIgnored_kept[OF filt] assms(2)
  have ig: "ig target = Inr False" and "target \<in> set (map (\<lambda>f. join [root, f]) ys)"
    by auto
  then obtain entry where e: "entry \<in> set ys" "target = join [root, entry]" by auto
  from e(1) walk have "entry \<in> set (fst (getDirectoryTree n fs w cwd root ig [] True))"
    by simp
  from getDirectoryTree_accounted[OF this] ig e(2) show ?thesis by blast
qed

text \<open>
  Claim C10: when \<^verbatim>\<open>grep\<close> is given a predicate and returns, its results are those of
  the files to search, each result names one of them by its root-relative path, and
  every file to search has passed the predicate twice: in its absolute form, joined to
  the root, in the second filter, and in its root-relative form (with the
  root-relative forms of its ancestors) during the walk.
\<close>

theorem grep_applies_filter_twice:
  assumes "grep n fs w cwd root searchString (Some ig) linesBefore linesAfter = Inr results"
  shows "\<exists>files. filesToSearch n fs w cwd root (Some ig) = Inr files
           \<and> results = concat (map (searchFile fs w cwd root searchString linesBefore linesAfter) files)
           \<and> (\<forall>res \<in> set results. \<exists>target \<in> set files. gr_file res = relative cwd root target)
           \<and> (\<forall>target \<in> set files.
                 ig target = Inr False
                 \<and> (\<exists>entry chain. target = join [root, entry]
                       \<and> chain \<noteq> []
                       \<and> descent fs w cwd root [] chain
                       \<and> (entry = last chain \<or> entry = last chain @ ''/'')
                       \<and> (\<forall>r \<in> set chain. ig r = Inr False)))"
proof -
  from assms obtain files where f: "filesToSearch n fs w cwd root (Some ig) = Inr files"
    and r: "results = concat (map (searchFile fs w cwd root searchString linesBefore linesAfter) files)"
    by (auto simp: grep_def split: if_splits sum.splits)
  have a: "\<forall>res \<in> set results. \<exists>target \<in> set files. gr_file res = relative cwd root target"
    unfolding r using searchFile_file by fastforce
  have b: "\<forall>target \<in> set files.
                 ig target = Inr False
                 \<and> (\<exists>entry chain. target = join [root, entry]
                       \<and> chain \<noteq> []
                       \<and> descent fs w cwd root [] chain
                       \<and> (entry = last chain \<or> entry = last chain @ ''/'')
                       \<and> (\<forall>r \<in> set chain. ig r = Inr False))"
  proof
    fix target assume "target \<in> set files"
    from filesToSearch_filtered[OF f this]
    show "ig target = Inr False
                 \<and> (\<exists>entry chain. target = join [root, entry]
                       \<and> chain \<noteq> []
                       \<and> descent fs w cwd root [] chain
                       \<and> (entry = last chain \<or> entry = last chain @ ''/'')
                       \<and> (\<forall>r \<in> set chain. ig r = Inr False))"
      unfolding accounted_def descent_def list_all_iff by blast
  qed
  from f r a b show ?thesis by blast
qed

text \<open>
  On the sample tree, a predicate that ignores \<^verbatim>\<open>a.txt\<close> by its absolute path only: the
  walk yields \<^verbatim>\<open>a.txt\<close>, and the second filter removes it.
\<close>

lemma sample_grep:
  "grep 3 memFs sampleFs ''/'' ''/srv/root'' ''needle'' (Some ignoreAbsoluteA) 0 0
     = Inr [\<lparr> gr_file = ''src/main.ts'', gr_line = 2, gr_match = ''a needle'', gr_content = None \<rparr>]"
  by code_simp

lemma sample_walk_A:
  "getDirectoryTree 3 memFs sampleFs ''/'' ''/srv/root'' ignoreAbsoluteA [] True
     = ([''a.txt'', ''src/'', ''src/main.ts''], None)"
  by code_simp

lemma sample_files:
  "filesToSearch 3 memFs sampleFs ''/'' ''/srv/root'' (Some ignoreAbsoluteA)
     = Inr [''/srv/root/src/'', ''/srv/root/src/main.ts'']"
  by code_simp

theorem grep_applies_filter_twice_witness:
  "grep 3 memFs sampleFs ''/'' ''/srv/root'' ''needle'' (Some ignoreAbsoluteA) 0 0
     = Inr [\<lparr> gr_file = ''src/main.ts'', gr_line = 2, gr_match = ''a needle'', gr_content = None \<rparr>]
   \<and> fst (getDirectoryTree 3 memFs sampleFs ''/'' ''/srv/root'' ignoreAbsoluteA [] True)
       = [''a.txt'', ''src/'', ''src/main.ts'']
   \<and> (\<exists>files. filesToSearch 3 memFs sampleFs ''/'' ''/srv/root'' (Some ignoreAbsoluteA) = Inr files
         \<and> ''/srv/root/a.txt'' \<notin> set files
         \<and> list_all (\<lambda>target. ignoreAbsoluteA target = Inr False) files)"
proof -
  from grep_applies_filter_twice[OF sample_grep] obtain files where
    f: "filesToSearch 3 memFs sampleFs ''/'' ''/srv/root'' (Some ignoreAbsoluteA) = Inr files"
    and b: "\<forall>target \<in> set files. ignoreAbsoluteA target = Inr False"
    by blast
  from f sample_files have "files = [''/srv/root/src/'', ''/srv/root/src/main.ts'']"
    by simp
  then have n: "''/srv/root/a.txt'' \<notin> set files" by simp
  from b have l: "list_all (\<lambda>target. ignoreAbsoluteA target = Inr False) files"
    unfolding list_all_iff by blast
  have w: "fst (getDirectoryTree 3 memFs sampleFs ''/'' ''/srv/root'' ignoreAbsoluteA [] True)
             = [''a.txt'', ''src/'', ''src/main.ts'']"
    by (simp add: sample_walk_A)
  from f n l have "\<exists>files. filesToSearch 3 memFs sampleFs ''/'' ''/srv/root'' (Some ignoreAbsoluteA) = Inr files
         \<and> ''/srv/root/a.txt'' \<notin> set files
         \<and> list_all (\<lambda>target. ignoreAbsoluteA target = Inr False) files"
    by blast
  with sample_grep w show ?thesis by blast
qed

section \<open>The results of the search\<close>



lemma take_drop_nth:
  assumes "f \<le> length xs"
  shows "take (f - k) (drop k xs) = map (\<lambda>j. xs ! j) [k ..< f]"
proof (cases "k \<le> f")
  case True
  have "map (\<lambda>j. xs ! j) [k ..< f] = take (f - k) (drop k xs)"
  proof (rule map_upt_eqI)
    show "length (take (f - k) (drop k xs)) = f - k" using assms True by simp
  next
    fix j assume "j < length (take (f - k) (drop k xs))"
    then show "take (f - k) (drop k xs) ! j = xs ! (k + j)" using assms True by simp
  qed
  then show ?thesis by simp
next
  case False
  then show ?thesis by simp
qed



text \<open>With a smaller \<open>linesAfter\<close> the end of the slice is counted from the end of the file.\<close>

lemma jsSlice_from_end:
  assumes "i < length lines" and "int i + a < - 1"
  shows "jsSlice lines (max 0 (int i - b)) (min (int (length lines) - 1) (int i + a) + 1)
           = map (\<lambda>k. lines ! k)
               [nat (max 0 (int i - b)) ..< nat (int (length lines) + int i + a + 1)]"
proof -
  define start where "start = max 0 (int i - b)"
  define final where "final = int (length lines) + int i + a + 1"
  have st: "min (int (length lines) - 1) (int i + a) + 1 = int i + a + 1"
    using assms by linarith
  have neg: "int i + a + 1 < 0" using assms by linarith
  have s0: "\<not> start < 0" unfolding start_def by linarith
  have fl: "nat final \<le> length lines" using assms unfolding final_def by linarith
  have mx: "max (int (length lines) + (int i + a + 1)) 0 = int (nat final)"
    unfolding final_def by linarith
  have "jsSlice lines start (int i + a + 1)
          = take (nat (int (nat final) - min start (int (length lines)))) (drop (nat (min start (int (length lines)))) lines)"
    using s0 neg mx by (simp add: jsSlice_def Let_def)
  also have "nat (int (nat final) - min start (int (length lines))) = nat final - nat (min start (int (length lines)))"
    using s0 by linarith
  also have "take (nat final - nat (min start (int (length lines)))) (drop (nat (min start (int (length lines)))) lines)
               = map (\<lambda>j. lines ! j) [nat (min start (int (length lines))) ..< nat final]"
    by (rule take_drop_nth[OF fl])
  also have "[nat (min start (int (length lines))) ..< nat final] = [nat start ..< nat final]"
  proof (cases "start \<le> int (length lines)")
    case True
    then show ?thesis by (simp add: min_absorb1)
  next
    case False
    then have "nat final \<le> nat start" "nat final \<le> nat (min start (int (length lines)))"
      using fl by linarith+
    then show ?thesis by simp
  qed
  finally show ?thesis
    unfolding start_def final_def st .
qed





lemma walkItems_raised:
  assumes tree: "\<And>dir recursive e.
      depth (resolve cwd [root, dir]) < depth absoluteDir
      \<Longrightarrow> snd (getDirectoryTree n fs w cwd root ignoreFilter dir recursive) = Some e
      \<Longrightarrow> (\<exists>p. fs_readdir fs w p = Inl e) \<or> (\<exists>p. ignoreFilter p = Inl e)"
    and fin: "finiteDepth fs w cwd root depth"
    and rd: "fs_readdir fs w absoluteDir = Inr allItems"
  shows "set items \<subseteq> set allItems
         \<Longrightarrow> snd (walkItems n fs w cwd root ignoreFilter absoluteDir recursive items) = Some e
         \<Longrightarrow> (\<exists>p. fs_readdir fs w p = Inl e) \<or> (\<exists>p. ignoreFilter p = Inl e)"
proof (induction items)
  case Nil
  then show ?case by simp
next
  case (Cons item rest)
  define relPath where "relPath = relative cwd root (join [absoluteDir, d_name item])"
  have mem: "item \<in> set allItems" using Cons.prems by simp
  have IH: "snd (walkItems n fs w cwd root ignoreFilter absoluteDir recursive rest) = Some e
              \<Longrightarrow> (\<exists>p. fs_readdir fs w p = Inl e) \<or> (\<exists>p. ignoreFilter p = Inl e)"
    using Cons.IH Cons.prems by simp
  have sub: "d_isDirectory item
               \<Longrightarrow> snd (getDirectoryTree n fs w cwd root ignoreFilter relPath True) = Some e
               \<Longrightarrow> (\<exists>p. fs_readdir fs w p = Inl e) \<or> (\<exists>p. ignoreFilter p = Inl e)"
  proof -
    assume "d_isDirectory item"
      and s: "snd (getDirectoryTree n fs w cwd root ignoreFilter relPath True) = Some e"
    then have "depth (resolve cwd [root, relPath]) < depth absoluteDir"
      using fin rd mem unfolding finiteDepth_def relPath_def by blast
    then show ?thesis using s by (rule tree)
  qed
  have step: "walkItems n fs w cwd root ignoreFilter absoluteDir recursive (item # rest)
      = (case ignoreFilter relPath of
           Inl e \<Rightarrow> ([], Some e)
         | Inr True \<Rightarrow> walkItems n fs w cwd root ignoreFilter absoluteDir recursive rest
         | Inr False \<Rightarrow>
             if d_isDirectory item then
               (if recursive then
                  (case getDirectoryTree n fs w cwd root ignoreFilter relPath True of
                     (ys, Some e) \<Rightarrow> ((relPath @ ''/'') # ys, Some e)
                   | (ys, None) \<Rightarrow>
                       (case walkItems n fs w cwd root ignoreFilter absoluteDir recursive rest of
                          (zs, r) \<Rightarrow> ((relPath @ ''/'') # ys @ zs, r)))
                else
                  (case walkItems n fs w cwd root ignoreFilter absoluteDir recursive rest of
                     (zs, r) \<Rightarrow> ((relPath @ ''/'') # zs, r)))
             else
               (case walkItems n fs w cwd root ignoreFilter absoluteDir recursive rest of
                  (zs, r) \<Rightarrow> (relPath # zs, r)))"
    unfolding walkItems.simps Let_def relPath_def by (rule refl)
  obtain zs r where rest: "walkItems n fs w cwd root ignoreFilter absoluteDir recursive rest = (zs, r)"
    by (cases "walkItems n fs w cwd root ignoreFilter absoluteDir recursive rest")
  obtain ys q where subw: "getDirectoryTree n fs w cwd root ignoreFilter relPath True = (ys, q)"
    by (cases "getDirectoryTree n fs w cwd root ignoreFilter relPath True")
  show ?case
  proof (cases "ignoreFilter relPath")
    case (Inl e')
    then have "e' = e" using Cons.prems(2) unfolding step by simp
    then show ?thesis using Inl by blast
  next
    case (Inr b)
    show ?thesis
    proof (cases b)
      case True
      then have "snd (walkItems n fs w cwd root ignoreFilter absoluteDir recursive rest) = Some e"
        using Cons.prems(2) Inr unfolding step by simp
      then show ?thesis by (rule IH)
    next
      case False
      note nb = False
      show ?thesis
      proof (cases "d_isDirectory item \<and> recursive")
        case False
        then have "snd (walkItems n fs w cwd root ignoreFilter absoluteDir recursive rest) = Some e"
          using Cons.prems(2) Inr nb unfolding step rest
          by (cases "d_isDirectory item"; cases recursive; simp)
        then show ?thesis by (rule IH)
      next
        case True
        show ?thesis
        proof (cases q)
          case None
          then have "snd (walkItems n fs w cwd root ignoreFilter absoluteDir recursive rest) = Some e"
            using Cons.prems(2) Inr nb True unfolding step rest subw by simp
          then show ?thesis by (rule IH)
        next
          case (Some e')
          then have "e' = e"
            using Cons.prems(2) Inr nb True unfolding step rest subw by simp
          then have "snd (getDirectoryTree n fs w cwd root ignoreFilter relPath True) = Some e"
            using Some subw by simp
          then show ?thesis using sub True by blast
        qed
      qed
    qed
  qed
qed

lemma getDirectoryTree_raised:
  assumes fin: "finiteDepth fs w cwd root depth"
  shows "depth (resolve cwd [root, dir]) < n
         \<Longrightarrow> snd (getDirectoryTree n fs w cwd root ignoreFilter dir recursive) = Some e
         \<Longrightarrow> (\<exists>p. fs_readdir fs w p = Inl e) \<or> (\<exists>p. ignoreFilter p = Inl e)"
proof (induction n arbitrary: dir recursive e)
  case 0
  then show ?case by simp
next
  case (Suc n)
  show ?case
  proof (cases "fs_readdir fs w (resolve cwd [root, dir])")
    case (Inl e')
    then have "e' = e" using Suc.prems(2) by simp
    then show ?thesis using Inl by blast
  next
    case (Inr items)
    then have s: "snd (walkItems n fs w cwd root ignoreFilter (resolve cwd [root, dir]) recursive items) = Some e"
      using Suc.prems(2) by simp
    show ?thesis
    proof (rule walkItems_raised[OF _ fin Inr _ s])
      fix d r e'
      assume "depth (resolve cwd [root, d]) < depth (resolve cwd [root, dir])"
        and s': "snd (getDirectoryTree n fs w cwd root ignoreFilter d r) = Some e'"
      then have "depth (resolve cwd [root, d]) < n" using Suc.prems(1) by simp
      then show "(\<exists>p. fs_readdir fs w p = Inl e') \<or> (\<exists>p. ignoreFilter p = Inl e')"
        using s' by (rule Suc.IH)
    qed simp
  qed
qed

lemma filterNotIgnored_raised:
  "filterNotIgnored ig xs = Inl e \<Longrightarrow> \<exists>p. ig p = Inl e"
proof (induction xs)
  case Nil
  then show ?case by simp
next
  case (Cons x xs)
  show ?case
  proof (cases "ig x")
    case (Inl e')
    then have "e' = e" using Cons.prems by simp
    then show ?thesis using Inl by blast
  next
    case (Inr b)
    then have "filterNotIgnored ig xs = Inl e"
      using Cons.prems by (simp split: sum.splits)
    then show ?thesis by (rule Cons.IH)
  qed
qed



lemma filesToSearch_raised:
  assumes fin: "finiteDepth fs w cwd root depth"
    and n: "depth (resolve cwd [root, []]) < n"
    and r: "filesToSearch n fs w cwd root ignoreFilter = Inl e"
  shows "(\<exists>p. fs_readdir fs w p = Inl e)
         \<or> (case ignoreFilter of
               None \<Rightarrow> e = TypeError ''ignoreFilter is not a function''
             | Some ig \<Rightarrow> \<exists>p. ig p = Inl e)"
proof -
  define ig' where "ig' = (case ignoreFilter of
                None \<Rightarrow> (\<lambda>p. Inl (TypeError ''ignoreFilter is not a function''))
              | Some ig \<Rightarrow> ig)"
  obtain ys q where t: "getDirectoryTree n fs w cwd root ig' [] True = (ys, q)"
    by (cases "getDirectoryTree n fs w cwd root ig' [] True")
  show ?thesis
  proof (cases q)
    case (Some e')
    then have "e' = e" using r t unfolding filesToSearch_def ig'_def[symmetric] by simp
    then have "snd (getDirectoryTree n fs w cwd root ig' [] True) = Some e"
      using t Some by simp
    from getDirectoryTree_raised[OF fin n this]
    have "(\<exists>p. fs_readdir fs w p = Inl e) \<or> (\<exists>p. ig' p = Inl e)" .
    then show ?thesis unfolding ig'_def by (cases ignoreFilter) auto
  next
    case None
    then obtain ig where i: "ignoreFilter = Some ig"
      and f: "filterNotIgnored ig (map (\<lambda>file. join [root, file]) ys) = Inl e"
      using r t unfolding filesToSearch_def ig'_def[symmetric]
      by (cases ignoreFilter) (simp_all add: Let_def)
    from filterNotIgnored_raised[OF f] show ?thesis using i by simp
  qed
qed


text \<open>
  In particular the search is not cut off: with enough levels, and a \<^verbatim>\<open>readdir\<close> and a
  predicate that raise errors of their own only, it does not run out of levels.
\<close>

lemma grep_enough_fuel:
  assumes "finiteDepth fs w cwd root depth" and "depth (resolve cwd [root, []]) < n"
    and "\<And>p. fs_readdir fs w p \<noteq> Inl OutOfFuel"
    and "\<And>ig p. ignoreFilter = Some ig \<Longrightarrow> ig p \<noteq> Inl OutOfFuel"
  shows "grep n fs w cwd root searchString ignoreFilter linesBefore linesAfter \<noteq> Inl OutOfFuel"
proof
  assume g: "grep n fs w cwd root searchString ignoreFilter linesBefore linesAfter = Inl OutOfFuel"
  then have "filesToSearch n fs w cwd root ignoreFilter = Inl OutOfFuel"
    by (simp add: grep_def split: if_splits sum.splits)
  from filesToSearch_raised[OF assms(1,2) this] show False
    using assms(3,4) by (cases ignoreFilter) auto
qed



lemma sample_grep_context:
  "grep 3 memFs sampleFs ''/'' ''/srv/root'' ''needle'' (Some ignoreNodeModules) 1 0
       = Inr [\<lparr> gr_file = ''a.txt'', gr_line = 2, gr_match = ''needle one'',
                 gr_content = Some (''alpha'' @ [CHR 0x0A] @ ''needle one'') \<rparr>,
              \<lparr> gr_file = ''src/main.ts'', gr_line = 2, gr_match = ''a needle'',
                 gr_content = Some (''no match'' @ [CHR 0x0A] @ ''a needle'') \<rparr>]"
  by code_simp





end
